theory Spec2Isabelle
  imports Main "HOL-Library.Word"
begin

unbundle bit_operations_syntax

section \<open>SecondaryTableController: data model\<close>

text \<open>
  The embedding follows \<^verbatim>\<open>SecondaryTableController.cpp\<close>. A C \<^verbatim>\<open>int\<close> and a C
  \<^verbatim>\<open>unsigned\<close> are 32-bit words; a signed value is read with \<open>sint\<close>. Strings
  (\<^verbatim>\<open>const char *\<close>) are \<open>string\<close>.
\<close>

type_synonym c_int = "32 word"
type_synonym c_unsigned = "32 word"

text \<open>\<^verbatim>\<open>IptablesTarget\<close> and the response codes used by the controller.\<close>

datatype IptablesTarget = V4 | V6 | V4V6

datatype ResponseCode = OperationFailed | CommandOkay | GetMarkResult

text \<open>
  Everything the controller does to the outside is logged, in order, with the answer the
  outside gave: a forked command (\<^verbatim>\<open>android_fork_execvp\<close>, through \<^verbatim>\<open>runCmd\<close>) with its
  exit status, an \<^verbatim>\<open>execIptables\<close> call with its status, a \<^verbatim>\<open>setNetworkForUidRange\<close>
  request to the network controller with its answer, and a message sent to the client.
\<close>

datatype event =
    Exec "string list" c_int
  | Iptables IptablesTarget "string list" c_int
  | UidRange c_int c_int c_unsigned bool bool
  | SendMsg ResponseCode string bool

text \<open>
  Constants that the file uses and that are declared elsewhere (\<^verbatim>\<open>NetdConstants.h\<close>,
  \<^verbatim>\<open>SecondaryTableController.h\<close>): they are parameters of the model.
\<close>

record netd_consts =
  IP_PATH :: string
  ADD :: string
  DEL :: string
  RULE_PRIO :: string
  BASE_TABLE_NUMBER :: c_unsigned

text \<open>
  The external collaborators, as parameters: what the network controller answers and
  what a command returns may depend on everything that happened before (the log).
\<close>

record world =
  netid_of :: "event list \<Rightarrow> string \<Rightarrow> c_unsigned"
  uid_range_ok :: "event list \<Rightarrow> c_int \<Rightarrow> c_int \<Rightarrow> c_unsigned \<Rightarrow> bool \<Rightarrow> bool"
  exec_status :: "event list \<Rightarrow> string list \<Rightarrow> c_int"
  iptables_status :: "event list \<Rightarrow> IptablesTarget \<Rightarrow> string list \<Rightarrow> c_int"

text \<open>
  The state: the member \<^verbatim>\<open>mNetIdRuleCount\<close> (a \<^verbatim>\<open>std::map\<close> from network id to a count),
  \<^verbatim>\<open>errno\<close>, and the log of external effects. The count is a C \<^verbatim>\<open>int\<close>: a 32-bit word
  that \<^verbatim>\<open>++\<close> and \<^verbatim>\<open>--\<close> wrap around at the ends of its range, as the machine does, and
  that comparisons read signed (\<open>sint\<close>).
\<close>

type_synonym rule_counts = "c_unsigned \<rightharpoonup> c_int"

definition INT_MAX :: c_int where "INT_MAX = 2147483647"

record state =
  mNetIdRuleCount :: rule_counts
  errno :: int
  trace :: "event list"

text \<open>Values of \<^verbatim>\<open>errno.h\<close> and \<^verbatim>\<open>net/if.h\<close> on Linux.\<close>

definition EBUSY :: int where "EBUSY = 16"
definition ENODEV :: int where "ENODEV = 19"
definition EINVAL :: int where "EINVAL = 22"
definition IFNAMSIZ :: nat where "IFNAMSIZ = 16"

definition LOCAL_MANGLE_OUTPUT :: string where "LOCAL_MANGLE_OUTPUT = ''st_mangle_OUTPUT''"
definition LOCAL_MANGLE_EXEMPT :: string where "LOCAL_MANGLE_EXEMPT = ''st_mangle_EXEMPT''"
definition LOCAL_NAT_POSTROUTING :: string where "LOCAL_NAT_POSTROUTING = ''st_nat_POSTROUTING''"
definition LOCAL_FILTER_OUTPUT :: string where "LOCAL_FILTER_OUTPUT = ''st_filter_OUTPUT''"

text \<open>\<^verbatim>\<open>LOCAL_MANGLE_IFACE_FORMAT = "st_mangle_%s_OUTPUT"\<close>, applied to its argument.\<close>

definition LOCAL_MANGLE_IFACE_FORMAT :: "string \<Rightarrow> string" where
  "LOCAL_MANGLE_IFACE_FORMAT iface = ''st_mangle_'' @ iface @ ''_OUTPUT''"

subsection \<open>Formatting\<close>

text \<open>
  \<^verbatim>\<open>snprintf(buf, size, ...)\<close> keeps at most \<open>n - 1\<close> characters of the formatted
  text. \<open>fmt_u\<close> is \<^verbatim>\<open>%u\<close> and \<open>fmt_d\<close> is \<^verbatim>\<open>%d\<close>.
\<close>

definition snprintf :: "nat \<Rightarrow> string \<Rightarrow> string" where
  "snprintf n text = take (n - 1) text"

definition digit_char :: "nat \<Rightarrow> char" where
  "digit_char d = ''0123456789'' ! d"

fun dec :: "nat \<Rightarrow> string" where
  "dec n = (if n < 10 then [digit_char n] else dec (n div 10) @ [digit_char (n mod 10)])"

declare dec.simps [simp del]

definition fmt_u :: "c_unsigned \<Rightarrow> string" where
  "fmt_u w = dec (unat w)"

definition fmt_d :: "c_int \<Rightarrow> string" where
  "fmt_d w = (if sint w < 0 then ''-'' @ dec (nat (- sint w)) else dec (nat (sint w)))"

section \<open>The rule reference counter\<close>

text \<open>
  \<open>map_count\<close> is \<^verbatim>\<open>std::map::count\<close>; \<open>map_at\<close> is the value \<^verbatim>\<open>operator[]\<close> refers
  to (a value-initialised 0 when the key is new).
\<close>

definition map_count :: "rule_counts \<Rightarrow> c_unsigned \<Rightarrow> nat" where
  "map_count m k = (case m k of None \<Rightarrow> 0 | Some _ \<Rightarrow> 1)"

definition map_at :: "rule_counts \<Rightarrow> c_unsigned \<Rightarrow> c_int" where
  "map_at m k = (case m k of None \<Rightarrow> 0 | Some c \<Rightarrow> c)"

definition modifyRuleCount :: "netd_consts \<Rightarrow> c_unsigned \<Rightarrow> string \<Rightarrow> rule_counts \<Rightarrow> rule_counts" where
  "modifyRuleCount K netId action m =
     (if action = ADD K then
        (let m1 = (if map_count m netId = 0 then m(netId \<mapsto> 0) else m)
         in m1(netId \<mapsto> map_at m1 netId + 1))
      else
        (if map_count m netId > 0 then
           (let m1 = m(netId \<mapsto> map_at m netId - 1)
            in if sint (map_at m1 netId) < 1 then m1(netId := None) else m1)
         else m))"

text \<open>A sequence of counter operations, each a network id and an action, in order.\<close>

definition modifyRuleCounts :: "netd_consts \<Rightarrow> (c_unsigned \<times> string) list \<Rightarrow> rule_counts \<Rightarrow> rule_counts" where
  "modifyRuleCounts K ops m = fold (\<lambda>(netId, action). modifyRuleCount K netId action) ops m"

section \<open>Calls to the outside\<close>

definition getNetworkId :: "world \<Rightarrow> string \<Rightarrow> state \<Rightarrow> c_unsigned" where
  "getNetworkId W iface s = netid_of W (trace s) iface"

definition runCmd :: "world \<Rightarrow> string list \<Rightarrow> state \<Rightarrow> c_int \<times> state" where
  "runCmd W argv s =
     (let ret = exec_status W (trace s) argv
      in (ret, s\<lparr>trace := trace s @ [Exec argv ret]\<rparr>))"

definition execIptables :: "world \<Rightarrow> IptablesTarget \<Rightarrow> string list \<Rightarrow> state \<Rightarrow> c_int \<times> state" where
  "execIptables W target args s =
     (let ret = iptables_status W (trace s) target args
      in (ret, s\<lparr>trace := trace s @ [Iptables target args ret]\<rparr>))"

definition setNetworkForUidRange :: "world \<Rightarrow> c_int \<Rightarrow> c_int \<Rightarrow> c_unsigned \<Rightarrow> bool \<Rightarrow> state \<Rightarrow> bool \<times> state" where
  "setNetworkForUidRange W uid_start uid_end netId forward_dns s =
     (let ok = uid_range_ok W (trace s) uid_start uid_end netId forward_dns
      in (ok, s\<lparr>trace := trace s @ [UidRange uid_start uid_end netId forward_dns ok]\<rparr>))"

definition sendMsg :: "ResponseCode \<Rightarrow> string \<Rightarrow> bool \<Rightarrow> state \<Rightarrow> state" where
  "sendMsg code msg addErrno s = s\<lparr>trace := trace s @ [SendMsg code msg addErrno]\<rparr>"

section \<open>Route table manager\<close>

text \<open>
  \<^verbatim>\<open>modifyRoute\<close>: the client \<^verbatim>\<open>cli\<close> is the one the messages of the log go to; the
  \<^verbatim>\<open>ALOGE\<close> line writes to the system log only and is left out.
\<close>

definition modifyRoute ::
  "netd_consts \<Rightarrow> world \<Rightarrow> string \<Rightarrow> string \<Rightarrow> string \<Rightarrow> c_int \<Rightarrow> string \<Rightarrow> c_unsigned \<Rightarrow> state
    \<Rightarrow> c_int \<times> state" where
  "modifyRoute K W action iface dest prefix gateway netId s =
     (let dest_str = snprintf 44 (dest @ ''/'' @ fmt_d prefix);
          tableIndex_str = snprintf 11 (fmt_u (netId + BASE_TABLE_NUMBER K));
          (ret, s1) =
            (if gateway = ''::'' then
               runCmd W [IP_PATH K, ''route'', action, dest_str,
                         ''dev'', iface, ''table'', tableIndex_str] s
             else
               runCmd W [IP_PATH K, ''route'', action, dest_str, ''via'', gateway,
                         ''dev'', iface, ''table'', tableIndex_str] s)
      in if ret \<noteq> 0 then
           (- 1, sendMsg OperationFailed ''ip route modification failed'' True
                   (s1\<lparr>errno := ENODEV\<rparr>))
         else
           (0, sendMsg CommandOkay ''Route modified'' False
                 (s1\<lparr>mNetIdRuleCount := modifyRuleCount K netId action (mNetIdRuleCount s1)\<rparr>)))"

definition addRoute ::
  "netd_consts \<Rightarrow> world \<Rightarrow> string \<Rightarrow> string \<Rightarrow> c_int \<Rightarrow> string \<Rightarrow> state \<Rightarrow> c_int \<times> state" where
  "addRoute K W iface dest prefix gateway s =
     modifyRoute K W (ADD K) iface dest prefix gateway (getNetworkId W iface s) s"

definition removeRoute ::
  "netd_consts \<Rightarrow> world \<Rightarrow> string \<Rightarrow> string \<Rightarrow> c_int \<Rightarrow> string \<Rightarrow> state \<Rightarrow> c_int \<times> state" where
  "removeRoute K W iface dest prefix gateway s =
     modifyRoute K W (DEL K) iface dest prefix gateway (getNetworkId W iface s) s"

section \<open>Fwmark policy manager\<close>

text \<open>The argument vectors of \<^verbatim>\<open>setFwmarkRule\<close>, named as its local arrays are.\<close>

definition add_del :: "bool \<Rightarrow> string" where
  "add_del add = (if add then ''add'' else ''del'')"

definition route_cmd :: "netd_consts \<Rightarrow> bool \<Rightarrow> string \<Rightarrow> string \<Rightarrow> string list" where
  "route_cmd K add iface mark_str =
     [IP_PATH K, ''route'', add_del add, ''default'', ''dev'', iface, ''table'', mark_str]"

definition fwmark_cmd :: "netd_consts \<Rightarrow> bool \<Rightarrow> string \<Rightarrow> string list" where
  "fwmark_cmd K add mark_str =
     [IP_PATH K, ''rule'', add_del add, ''prio'', RULE_PRIO K, ''fwmark'', mark_str,
      ''table'', mark_str]"

definition route6_cmd :: "netd_consts \<Rightarrow> bool \<Rightarrow> string \<Rightarrow> string \<Rightarrow> string list" where
  "route6_cmd K add iface mark_str =
     [IP_PATH K, ''-6'', ''route'', add_del add, ''default'', ''dev'', iface, ''table'', mark_str]"

definition fwmark6_cmd :: "netd_consts \<Rightarrow> bool \<Rightarrow> string \<Rightarrow> string list" where
  "fwmark6_cmd K add mark_str =
     [IP_PATH K, ''-6'', ''rule'', add_del add, ''prio'', RULE_PRIO K, ''fwmark'', mark_str,
      ''table'', mark_str]"

definition new_chain_args :: "string \<Rightarrow> string list" where
  "new_chain_args chain_str = [''-t'', ''mangle'', ''-N'', chain_str]"

definition insert_jump_args :: "string \<Rightarrow> string \<Rightarrow> string list" where
  "insert_jump_args mark_str chain_str =
     [''-t'', ''mangle'', ''-I'', LOCAL_MANGLE_OUTPUT, ''3'', ''-m'', ''mark'', ''--mark'', mark_str,
      ''-g'', chain_str]"

definition clear_mark_args :: "string \<Rightarrow> string list" where
  "clear_mark_args chain_str =
     [''-t'', ''mangle'', ''-A'', chain_str, ''-j'', ''MARK'', ''--set-mark'', ''0'']"

definition delete_jump_args :: "string \<Rightarrow> string \<Rightarrow> string list" where
  "delete_jump_args mark_str chain_str =
     [''-t'', ''mangle'', ''-D'', LOCAL_MANGLE_OUTPUT, ''-m'', ''mark'', ''--mark'', mark_str,
      ''-g'', chain_str]"

definition flush_chain_args :: "string \<Rightarrow> string list" where
  "flush_chain_args chain_str = [''-t'', ''mangle'', ''-F'', chain_str]"

definition delete_chain_args :: "string \<Rightarrow> string list" where
  "delete_chain_args chain_str = [''-t'', ''mangle'', ''-X'', chain_str]"

definition masquerade_args :: "bool \<Rightarrow> string \<Rightarrow> string \<Rightarrow> string list" where
  "masquerade_args add iface mark_str =
     [''-t'', ''nat'', (if add then ''-A'' else ''-D''), LOCAL_NAT_POSTROUTING, ''-o'', iface,
      ''-m'', ''mark'', ''--mark'', mark_str, ''-j'', ''MASQUERADE'']"

definition reject_args :: "bool \<Rightarrow> string \<Rightarrow> string list" where
  "reject_args add mark_str =
     [''-t'', ''filter'', (if add then ''-A'' else ''-D''), LOCAL_FILTER_OUTPUT,
      ''-m'', ''mark'', ''--mark'', mark_str, ''-j'', ''REJECT'']"

text \<open>
  \<^verbatim>\<open>setFwmarkRule\<close>. The variable \<^verbatim>\<open>ret\<close> is assigned (\<open>=\<close>) or accumulated (\<open>|=\<close>)
  exactly where the source does it; each \<open>let\<close> of \<open>ret\<close> shadows the one before.
\<close>

definition setFwmarkRule :: "netd_consts \<Rightarrow> world \<Rightarrow> string \<Rightarrow> bool \<Rightarrow> state \<Rightarrow> c_int \<times> state" where
  "setFwmarkRule K W iface add s0 =
     (let netId = getNetworkId W iface s0 in
      if map_count (mNetIdRuleCount s0) netId > 0 then (- 1, s0\<lparr>errno := EBUSY\<rparr>)
      else
        let mark_str = snprintf 11 (fmt_u (netId + BASE_TABLE_NUMBER K));
            (ret, s) = runCmd W (route_cmd K add iface mark_str) s0;
            (ret, s) = runCmd W (fwmark_cmd K add mark_str) s
        in if ret \<noteq> 0 then (ret, s)
        else
          let (ret, s) = runCmd W (route6_cmd K add iface mark_str) s;
              (ret, s) = runCmd W (fwmark6_cmd K add mark_str) s
          in if ret \<noteq> 0 then (ret, s)
          else
            let chain_str = snprintf (IFNAMSIZ + 18) (LOCAL_MANGLE_IFACE_FORMAT iface);
                (ret, s) =
                  (if add then
                     let (ret, s) = execIptables W V4V6 (new_chain_args chain_str) s;
                         (r, s) = execIptables W V4V6 (insert_jump_args mark_str chain_str) s;
                         ret = ret OR r;
                         (r, s) = execIptables W V4V6 (clear_mark_args chain_str) s;
                         ret = ret OR r
                     in (ret, s)
                   else
                     let (ret, s) = execIptables W V4V6 (delete_jump_args mark_str chain_str) s;
                         (r, s) = execIptables W V4V6 (flush_chain_args chain_str) s;
                         ret = ret OR r;
                         (r, s) = execIptables W V4V6 (delete_chain_args chain_str) s;
                         ret = ret OR r
                     in (ret, s));
                (ret, s) = execIptables W V4 (masquerade_args add iface mark_str) s
            in if ret \<noteq> 0 then (ret, s)
            else
              let (ret, s) = execIptables W V6 (masquerade_args add iface mark_str) s
              in if ret \<noteq> 0 then execIptables W V6 (reject_args add mark_str) s
                 else (ret, s))"

definition addFwmarkRule :: "netd_consts \<Rightarrow> world \<Rightarrow> string \<Rightarrow> state \<Rightarrow> c_int \<times> state" where
  "addFwmarkRule K W iface s = setFwmarkRule K W iface True s"

definition removeFwmarkRule :: "netd_consts \<Rightarrow> world \<Rightarrow> string \<Rightarrow> state \<Rightarrow> c_int \<times> state" where
  "removeFwmarkRule K W iface s = setFwmarkRule K W iface False s"

section \<open>UID routing manager\<close>

definition setUidRule ::
  "netd_consts \<Rightarrow> world \<Rightarrow> string \<Rightarrow> c_int \<Rightarrow> c_int \<Rightarrow> bool \<Rightarrow> state \<Rightarrow> c_int \<times> state" where
  "setUidRule K W iface uid_start uid_end add s0 =
     (let netId = getNetworkId W iface s0;
          (ok, s) = setNetworkForUidRange W uid_start uid_end (if add then netId else 0) False s0
      in if \<not> ok then (- 1, s\<lparr>errno := EINVAL\<rparr>)
         else
           let uid_str = snprintf 24 (fmt_d uid_start @ ''-'' @ fmt_d uid_end);
               chain_str = snprintf (IFNAMSIZ + 18) (LOCAL_MANGLE_IFACE_FORMAT iface)
           in execIptables W V4V6
                [''-t'', ''mangle'', (if add then ''-A'' else ''-D''), LOCAL_MANGLE_OUTPUT,
                 ''-m'', ''owner'', ''--uid-owner'', uid_str, ''-g'', chain_str] s)"

definition addUidRule ::
  "netd_consts \<Rightarrow> world \<Rightarrow> string \<Rightarrow> c_int \<Rightarrow> c_int \<Rightarrow> state \<Rightarrow> c_int \<times> state" where
  "addUidRule K W iface uid_start uid_end s = setUidRule K W iface uid_start uid_end True s"

definition removeUidRule ::
  "netd_consts \<Rightarrow> world \<Rightarrow> string \<Rightarrow> c_int \<Rightarrow> c_int \<Rightarrow> state \<Rightarrow> c_int \<times> state" where
  "removeUidRule K W iface uid_start uid_end s = setUidRule K W iface uid_start uid_end False s"

section \<open>Notions used in the statements\<close>

text \<open>
  The mark and table string of a network, and the name of an interface's mangle chain, as
  the functions above compute them (\<^verbatim>\<open>mark_str\<close>, \<^verbatim>\<open>tableIndex_str\<close>, \<^verbatim>\<open>chain_str\<close>).
\<close>

definition mark_of :: "netd_consts \<Rightarrow> c_unsigned \<Rightarrow> string" where
  "mark_of K netId = snprintf 11 (fmt_u (netId + BASE_TABLE_NUMBER K))"

definition chain_of :: "string \<Rightarrow> string" where
  "chain_of iface = snprintf (IFNAMSIZ + 18) (LOCAL_MANGLE_IFACE_FORMAT iface)"

text \<open>
  The three mangle-chain commands of \<^verbatim>\<open>setFwmarkRule\<close>, in the order issued: the branch
  for \<open>add\<close> and the branch for removal.
\<close>

definition chain_cmds :: "bool \<Rightarrow> string \<Rightarrow> string \<Rightarrow> string list list" where
  "chain_cmds add mark_str chain_str =
     (if add then
        [new_chain_args chain_str, insert_jump_args mark_str chain_str, clear_mark_args chain_str]
      else
        [delete_jump_args mark_str chain_str, flush_chain_args chain_str,
         delete_chain_args chain_str])"

text \<open>
  The log entries of the stages of \<^verbatim>\<open>setFwmarkRule\<close>, for given statuses: the v4 route
  and rule; the v6 route and rule; the mangle chain and the v4 NAT rule.
\<close>

definition stage1 :: "netd_consts \<Rightarrow> bool \<Rightarrow> string \<Rightarrow> string \<Rightarrow> c_int \<Rightarrow> c_int \<Rightarrow> event list" where
  "stage1 K add iface mark_str r1 r2 =
     [Exec (route_cmd K add iface mark_str) r1, Exec (fwmark_cmd K add mark_str) r2]"

definition stage2 :: "netd_consts \<Rightarrow> bool \<Rightarrow> string \<Rightarrow> string \<Rightarrow> c_int \<Rightarrow> c_int \<Rightarrow> event list" where
  "stage2 K add iface mark_str r3 r4 =
     [Exec (route6_cmd K add iface mark_str) r3, Exec (fwmark6_cmd K add mark_str) r4]"

definition stage3 ::
  "bool \<Rightarrow> string \<Rightarrow> string \<Rightarrow> string \<Rightarrow> c_int \<Rightarrow> c_int \<Rightarrow> c_int \<Rightarrow> c_int \<Rightarrow> event list" where
  "stage3 add iface mark_str chain_str r5 r6 r7 r8 =
     [Iptables V4V6 (chain_cmds add mark_str chain_str ! 0) r5,
      Iptables V4V6 (chain_cmds add mark_str chain_str ! 1) r6,
      Iptables V4V6 (chain_cmds add mark_str chain_str ! 2) r7,
      Iptables V4 (masquerade_args add iface mark_str) r8]"


text \<open>Every stored count is at least 1; every stored count is between 1 and \<open>b\<close>.\<close>

definition positive_counts :: "rule_counts \<Rightarrow> bool" where
  "positive_counts m = (\<forall>k c. m k = Some c \<longrightarrow> 1 \<le> sint c)"

definition bounded_counts :: "int \<Rightarrow> rule_counts \<Rightarrow> bool" where
  "bounded_counts b m = (\<forall>k c. m k = Some c \<longrightarrow> 1 \<le> sint c \<and> sint c \<le> b)"

text \<open>
  A sequence of counter operations runs without overflow from a map when no increment in
  it finds the count of its network id at \<open>INT_MAX\<close>.
\<close>

fun no_overflow :: "netd_consts \<Rightarrow> (c_unsigned \<times> string) list \<Rightarrow> rule_counts \<Rightarrow> bool" where
  "no_overflow K [] m = True"
| "no_overflow K ((netId, action) # ops) m =
     ((if action = ADD K then map_at m netId \<noteq> INT_MAX else True)
      \<and> no_overflow K ops (modifyRuleCount K netId action m))"

section \<open>Example inputs\<close>

text \<open>
  The interface \<^verbatim>\<open>tun0\<close> is network 5 and the table offset is 1000, so its mark and
  table are 1005.
\<close>

definition K0 :: netd_consts where
  "K0 = \<lparr>IP_PATH = ''/system/bin/ip'', ADD = ''add'', DEL = ''del'', RULE_PRIO = ''20'',
         BASE_TABLE_NUMBER = 1000\<rparr>"

definition W_ok :: world where
  "W_ok = \<lparr>netid_of = (\<lambda>h iface. 5), uid_range_ok = (\<lambda>h a b n f. True),
           exec_status = (\<lambda>h argv. 0), iptables_status = (\<lambda>h target args. 0)\<rparr>"

text \<open>Worlds where one command fails: the v4 default route; the v4 fwmark rule.\<close>

definition W_route_fails :: world where
  "W_route_fails = W_ok\<lparr>exec_status :=
     (\<lambda>h argv. if argv = route_cmd K0 True ''tun0'' ''1005'' then 1 else 0)\<rparr>"


text \<open>A kernel without IPv6 NAT: every \<^verbatim>\<open>ip6tables -t nat\<close> command fails.\<close>

definition W_no_nat6 :: world where
  "W_no_nat6 = W_ok\<lparr>iptables_status :=
     (\<lambda>h target args. if target = V6 \<and> take 2 args = [''-t'', ''nat''] then 1 else 0)\<rparr>"

text \<open>A world where every \<^verbatim>\<open>ip\<close> command fails, and one whose registry refuses.\<close>

definition W_ip_fails :: world where
  "W_ip_fails = W_ok\<lparr>exec_status := (\<lambda>h argv. 1)\<rparr>"

definition W_uid_refused :: world where
  "W_uid_refused = W_ok\<lparr>uid_range_ok := (\<lambda>h a b n f. False)\<rparr>"

definition s_clean :: state where
  "s_clean = \<lparr>mNetIdRuleCount = Map.empty, errno = 0, trace = []\<rparr>"

definition s_busy :: state where
  "s_busy = \<lparr>mNetIdRuleCount = [5 \<mapsto> 1], errno = 0, trace = []\<rparr>"

definition ops_example :: "(c_unsigned \<times> string) list" where
  "ops_example = [(5, ''add''), (7, ''add''), (5, ''add''), (7, ''del''), (5, ''del'')]"

section \<open>The rule reference counter: properties\<close>

text \<open>Away from the ends of the range, \<^verbatim>\<open>++\<close> and \<^verbatim>\<open>--\<close> are those of the integers.\<close>

lemma sint_succ:
  fixes c :: c_int
  assumes "c \<noteq> INT_MAX"
  shows "sint (c + 1) = sint c + 1"
proof -
  have "sint c \<noteq> 2147483647"
  proof
    assume "sint c = 2147483647"
    then have "word_of_int (sint c) = (word_of_int 2147483647 :: c_int)" by simp
    then have "c = 2147483647" by simp
    with assms show False by (simp add: INT_MAX_def)
  qed
  moreover have "sint c < 2147483648" using sint_lt [of c] by simp
  moreover have "- 2147483648 \<le> sint c" using sint_ge [of c] by simp
  ultimately show ?thesis
    by (simp add: sint_word_ariths signed_take_bit_int_eq_self)
qed

lemma sint_pred:
  fixes c :: c_int
  assumes "1 \<le> sint c"
  shows "sint (c - 1) = sint c - 1"
proof -
  have "sint c < 2147483648" using sint_lt [of c] by simp
  with assms show ?thesis
    by (simp add: sint_word_ariths signed_take_bit_int_eq_self)
qed

lemma modifyRuleCount_ADD:
  "modifyRuleCount K netId (ADD K) m =
     m(netId \<mapsto> (case m netId of None \<Rightarrow> 1 | Some c \<Rightarrow> c + 1))"
  by (simp add: modifyRuleCount_def map_count_def map_at_def Let_def split: option.splits)

lemma modifyRuleCount_not_ADD:
  "action \<noteq> ADD K \<Longrightarrow> modifyRuleCount K netId action m =
     (case m netId of None \<Rightarrow> m
      | Some c \<Rightarrow> if sint (c - 1) < 1 then m(netId := None) else m(netId \<mapsto> c - 1))"
  by (auto simp add: modifyRuleCount_def map_count_def map_at_def Let_def split: option.splits)

text \<open>An operation that does not overflow keeps every stored count at 1 or more.\<close>

lemma modifyRuleCount_positive:
  assumes p: "positive_counts m"
    and ok: "action = ADD K \<Longrightarrow> map_at m netId \<noteq> INT_MAX"
  shows "positive_counts (modifyRuleCount K netId action m)"
  unfolding positive_counts_def
proof (intro allI impI)
  fix k c
  assume h: "modifyRuleCount K netId action m k = Some c"
  show "1 \<le> sint c"
  proof (cases "k = netId")
    case False
    with h p show ?thesis
      by (cases "action = ADD K")
         (auto simp add: modifyRuleCount_ADD modifyRuleCount_not_ADD positive_counts_def
           split: option.splits if_splits)
  next
    case True
    show ?thesis
    proof (cases "m netId")
      case None
      with h True show ?thesis
        by (cases "action = ADD K")
           (auto simp add: modifyRuleCount_ADD modifyRuleCount_not_ADD)
    next
      case (Some d)
      from p Some have d: "1 \<le> sint d" by (simp add: positive_counts_def)
      show ?thesis
      proof (cases "action = ADD K")
        case True
        with ok Some have "d \<noteq> INT_MAX" by (simp add: map_at_def)
        then have "sint (d + 1) = sint d + 1" by (rule sint_succ)
        with h \<open>k = netId\<close> True Some d show ?thesis
          by (simp add: modifyRuleCount_ADD)
      next
        case False
        with h \<open>k = netId\<close> Some show ?thesis
          by (simp add: modifyRuleCount_not_ADD split: if_splits)
      qed
    qed
  qed
qed

lemma modifyRuleCounts_positive:
  "positive_counts m \<Longrightarrow> no_overflow K ops m \<Longrightarrow> positive_counts (modifyRuleCounts K ops m)"
proof (induction ops arbitrary: m)
  case Nil
  then show ?case by (simp add: modifyRuleCounts_def)
next
  case (Cons x ops)
  obtain n a where x: "x = (n, a)" by (cases x)
  from Cons.prems x have ok: "a = ADD K \<Longrightarrow> map_at m n \<noteq> INT_MAX"
    and rest: "no_overflow K ops (modifyRuleCount K n a m)"
    by (simp_all split: if_splits)
  have "positive_counts (modifyRuleCount K n a m)"
    using Cons.prems(1) ok by (rule modifyRuleCount_positive)
  from Cons.IH [OF this rest] x show ?case
    by (simp add: modifyRuleCounts_def)
qed

text \<open>
  One operation raises a count by at most 1, so a sequence of fewer than \<open>2^31\<close>
  operations from the empty map never finds a count at \<open>INT_MAX\<close>.
\<close>

lemma modifyRuleCount_bounded:
  assumes b: "bounded_counts b m" and lt: "b < 2147483647" and nonneg: "0 \<le> b"
  shows "bounded_counts (b + 1) (modifyRuleCount K netId action m)"
  unfolding bounded_counts_def
proof (intro allI impI)
  fix k c
  assume h: "modifyRuleCount K netId action m k = Some c"
  show "1 \<le> sint c \<and> sint c \<le> b + 1"
  proof (cases "k = netId")
    case False
    with h b show ?thesis
      by (cases "action = ADD K")
         (fastforce simp add: modifyRuleCount_ADD modifyRuleCount_not_ADD bounded_counts_def
           split: option.splits if_splits)+
  next
    case True
    show ?thesis
    proof (cases "m netId")
      case None
      with h True nonneg show ?thesis
        by (cases "action = ADD K")
           (auto simp add: modifyRuleCount_ADD modifyRuleCount_not_ADD)
    next
      case (Some d)
      from b Some have d: "1 \<le> sint d" "sint d \<le> b" by (simp_all add: bounded_counts_def)
      show ?thesis
      proof (cases "action = ADD K")
        case True
        have "d \<noteq> INT_MAX"
        proof
          assume "d = INT_MAX"
          then have "sint d = 2147483647" by (simp add: INT_MAX_def)
          with d lt show False by simp
        qed
        then have "sint (d + 1) = sint d + 1" by (rule sint_succ)
        with h \<open>k = netId\<close> True Some d show ?thesis
          by (simp add: modifyRuleCount_ADD)
      next
        case False
        from d have "sint (d - 1) = sint d - 1" by (simp add: sint_pred)
        with h \<open>k = netId\<close> Some False d show ?thesis
          by (auto simp add: modifyRuleCount_not_ADD split: if_splits)
      qed
    qed
  qed
qed

lemma bounded_no_overflow:
  "bounded_counts b m \<Longrightarrow> 0 \<le> b \<Longrightarrow> b + int (length ops) < 2147483648 \<Longrightarrow> no_overflow K ops m"
proof (induction ops arbitrary: m b)
  case Nil
  then show ?case by simp
next
  case (Cons x ops)
  obtain n a where x: "x = (n, a)" by (cases x)
  from Cons.prems have lt: "b < 2147483647" by simp
  have step: "bounded_counts (b + 1) (modifyRuleCount K n a m)"
    using Cons.prems(1) lt Cons.prems(2) by (rule modifyRuleCount_bounded)
  have rest: "no_overflow K ops (modifyRuleCount K n a m)"
    using step Cons.prems by (intro Cons.IH [of "b + 1"]) simp_all
  have "map_at m n \<noteq> INT_MAX"
  proof (cases "m n")
    case None
    then show ?thesis by (simp add: map_at_def INT_MAX_def)
  next
    case (Some d)
    with Cons.prems(1) have "sint d \<le> b" by (simp add: bounded_counts_def)
    with lt have "sint d \<noteq> 2147483647" by simp
    then have "d \<noteq> INT_MAX" by (auto simp add: INT_MAX_def)
    with Some show ?thesis by (simp add: map_at_def)
  qed
  with rest x show ?case by simp
qed

lemma short_no_overflow:
  "length ops < 2147483648 \<Longrightarrow> no_overflow K ops Map.empty"
  using bounded_no_overflow [of 0 Map.empty ops K] by (simp add: bounded_counts_def)

lemma ops_example_result: "modifyRuleCounts K0 ops_example Map.empty = [5 \<mapsto> 1]"
  by (simp add: modifyRuleCounts_def modifyRuleCount_def map_count_def map_at_def K0_def
      ops_example_def fun_eq_iff)

text \<open>
  Claim C3, as amended. After any sequence of \<^verbatim>\<open>modifyRuleCount\<close> calls that starts from
  the empty map (an action equal to \<^verbatim>\<open>ADD\<close> increments, any other action decrements, as
  \<^verbatim>\<open>DEL\<close> does) and in which no increment finds a count at \<open>INT_MAX\<close>, as is the case for
  every sequence of fewer than \<open>2^31\<close> calls, a network id is in the map if and only if its
  count is at least 1, and no entry holds a count of 0 or a negative count.
\<close>

theorem rule_count_invariant:
  assumes "length ops < 2147483648 \<or> no_overflow K ops Map.empty"
  shows "(netId \<in> dom (modifyRuleCounts K ops Map.empty)
           \<longleftrightarrow> 1 \<le> sint (map_at (modifyRuleCounts K ops Map.empty) netId))
      \<and> (\<forall>c. modifyRuleCounts K ops Map.empty netId = Some c \<longrightarrow> 1 \<le> sint c)"
proof -
  from assms have n: "no_overflow K ops Map.empty"
    by (auto intro: short_no_overflow)
  have p: "positive_counts (modifyRuleCounts K ops Map.empty)"
    using _ n by (rule modifyRuleCounts_positive) (simp add: positive_counts_def)
  then show ?thesis
    by (auto simp add: positive_counts_def map_at_def split: option.splits)
qed

text \<open>Claim C3, as amended, on a sequence of five calls.\<close>

theorem rule_count_invariant_witness:
  "length ops_example < 2147483648
   \<and> modifyRuleCounts K0 ops_example Map.empty 5 = Some 1
   \<and> 7 \<notin> dom (modifyRuleCounts K0 ops_example Map.empty)
   \<and> 1 \<le> sint (map_at (modifyRuleCounts K0 ops_example Map.empty) 5)
   \<and> \<not> 1 \<le> sint (map_at (modifyRuleCounts K0 ops_example Map.empty) 7)"
proof -
  have l: "length ops_example < 2147483648" by (simp add: ops_example_def)
  then have h: "length ops_example < 2147483648 \<or> no_overflow K0 ops_example Map.empty" ..
  from rule_count_invariant [OF h, of 5] rule_count_invariant [OF h, of 7] l
  show ?thesis
    by (simp add: ops_example_result map_at_def)
qed

text \<open>
  \<open>n\<close> increments of one network id add \<open>n\<close> to its count, modulo \<open>2^32\<close>.
\<close>

lemma adds_replicate:
  "modifyRuleCounts K (replicate n (k, ADD K)) m =
     (if n = 0 then m else m(k \<mapsto> map_at m k + of_nat n))"
proof (induction n arbitrary: m)
  case 0
  then show ?case by (simp add: modifyRuleCounts_def)
next
  case (Suc n)
  have "modifyRuleCounts K (replicate (Suc n) (k, ADD K)) m
      = modifyRuleCounts K (replicate n (k, ADD K)) (modifyRuleCount K k (ADD K) m)"
    by (simp add: modifyRuleCounts_def)
  also have "\<dots> = (if n = 0 then modifyRuleCount K k (ADD K) m
       else (modifyRuleCount K k (ADD K) m)
              (k \<mapsto> map_at (modifyRuleCount K k (ADD K) m) k + of_nat n))"
    by (rule Suc.IH)
  also have "\<dots> = m(k \<mapsto> map_at m k + of_nat (Suc n))"
    by (auto simp add: modifyRuleCount_ADD map_at_def split: option.splits)
  finally show ?case by simp
qed

text \<open>
  Claim C3 as first stated, for any sequence, fails: after \<open>2^31\<close> increments of network
  5 from the empty map the count has wrapped around to \<open>- 2^31\<close>, so the entry is present
  with a negative count.
\<close>

theorem rule_count_overflow_counterexample:
  "modifyRuleCounts K0 (replicate 2147483648 (5, ADD K0)) Map.empty 5 = Some 2147483648
   \<and> sint (2147483648 :: c_int) = - 2147483648
   \<and> 5 \<in> dom (modifyRuleCounts K0 (replicate 2147483648 (5, ADD K0)) Map.empty)
   \<and> \<not> 1 \<le> sint (map_at (modifyRuleCounts K0 (replicate 2147483648 (5, ADD K0)) Map.empty) 5)"
  by (simp add: adds_replicate map_at_def)

text \<open>
  Claim C4. On a reference-count map (where the count stored for the network id, if any,
  is at least 1, as it is in every map the counter reaches without overflow), incrementing
  a network id and then decrementing it gives back exactly the map one started from; and
  decrementing a network id that has no entry leaves the map as it is. \<^verbatim>\<open>ADD\<close> and
  \<^verbatim>\<open>DEL\<close> are different strings.
\<close>

theorem increment_decrement_roundtrip:
  assumes "ADD K \<noteq> DEL K" and "\<forall>c. m netId = Some c \<longrightarrow> 1 \<le> sint c"
  shows "modifyRuleCount K netId (DEL K) (modifyRuleCount K netId (ADD K) m) = m
       \<and> (m netId = None \<longrightarrow> modifyRuleCount K netId (DEL K) m = m)"
  using assms
  by (auto simp add: modifyRuleCount_ADD modifyRuleCount_not_ADD fun_eq_iff
      split: option.splits)

text \<open>Claim C4 on a map with two entries, at a present and at an absent network id.\<close>

theorem increment_decrement_roundtrip_witness:
  "ADD K0 \<noteq> DEL K0
   \<and> modifyRuleCount K0 5 (DEL K0) (modifyRuleCount K0 5 (ADD K0) [5 \<mapsto> 2, 7 \<mapsto> 1])
       = [5 \<mapsto> 2, 7 \<mapsto> 1]
   \<and> modifyRuleCount K0 9 (DEL K0) (modifyRuleCount K0 9 (ADD K0) [5 \<mapsto> 2, 7 \<mapsto> 1])
       = [5 \<mapsto> 2, 7 \<mapsto> 1]
   \<and> modifyRuleCount K0 9 (DEL K0) [5 \<mapsto> 2, 7 \<mapsto> 1] = [5 \<mapsto> 2, 7 \<mapsto> 1]"
  using increment_decrement_roundtrip [of K0 "[5 \<mapsto> 2, 7 \<mapsto> 1]" 5]
    increment_decrement_roundtrip [of K0 "[5 \<mapsto> 2, 7 \<mapsto> 1]" 9]
  by (simp add: K0_def)

text \<open>
  The hypothesis on the stored count is needed only outside the reference-count maps: on
  a map that holds a count of 0 the round trip removes the entry.
\<close>

lemma roundtrip_on_zero_count:
  "modifyRuleCount K0 5 (DEL K0) (modifyRuleCount K0 5 (ADD K0) [5 \<mapsto> 0]) = Map.empty"
  by (simp add: modifyRuleCount_def map_count_def map_at_def K0_def fun_eq_iff)

section \<open>Fwmark policy manager: properties\<close>

text \<open>The example network: mark and table 1005, chain \<^verbatim>\<open>st_mangle_tun0_OUTPUT\<close>.\<close>

lemma dec_1005: "dec 1005 = ''1005''"
  by code_simp

lemma mark_example: "mark_of K0 5 = ''1005''"
  by (simp add: mark_of_def K0_def fmt_u_def snprintf_def dec_1005)

lemma chain_example: "chain_of ''tun0'' = ''st_mangle_tun0_OUTPUT''"
  by (simp add: chain_of_def snprintf_def IFNAMSIZ_def LOCAL_MANGLE_IFACE_FORMAT_def)

lemma mark_tun0: "snprintf 11 (fmt_u (5 + BASE_TABLE_NUMBER K0)) = ''1005''"
  using mark_example by (simp add: mark_of_def)

lemma chain_tun0:
  "snprintf (IFNAMSIZ + 18) (LOCAL_MANGLE_IFACE_FORMAT ''tun0'') = ''st_mangle_tun0_OUTPUT''"
  using chain_example by (simp add: chain_of_def)

lemmas cmd_defs = route_cmd_def fwmark_cmd_def route6_cmd_def fwmark6_cmd_def add_del_def
  new_chain_args_def insert_jump_args_def clear_mark_args_def delete_jump_args_def
  flush_chain_args_def delete_chain_args_def masquerade_args_def reject_args_def

text \<open>The busy guard: an entry for the network id ends the call before any command.\<close>

lemma setFwmarkRule_busy:
  "mNetIdRuleCount s (getNetworkId W iface s) = Some c \<Longrightarrow>
     setFwmarkRule K W iface add s = (- 1, s\<lparr>errno := EBUSY\<rparr>)"
  by (simp add: setFwmarkRule_def map_count_def)

text \<open>
  Claim C2. When the network id that the interface resolves to has a reference count
  greater than zero, \<^verbatim>\<open>addFwmarkRule\<close> issues no command (the log is as before), changes
  nothing of the state but \<^verbatim>\<open>errno\<close>, which it sets to \<^verbatim>\<open>EBUSY\<close>, and returns -1.
\<close>

theorem enable_on_busy_network:
  assumes "mNetIdRuleCount s (getNetworkId W iface s) = Some c" and "0 < sint c"
  shows "addFwmarkRule K W iface s = (- 1, s\<lparr>errno := EBUSY\<rparr>)
       \<and> fst (addFwmarkRule K W iface s) \<noteq> 0
       \<and> errno (snd (addFwmarkRule K W iface s)) = EBUSY
       \<and> trace (snd (addFwmarkRule K W iface s)) = trace s
       \<and> mNetIdRuleCount (snd (addFwmarkRule K W iface s)) = mNetIdRuleCount s"
  using assms by (simp add: addFwmarkRule_def setFwmarkRule_busy)

text \<open>Claim C2 on the example network with one reference.\<close>

theorem enable_on_busy_network_witness:
  "mNetIdRuleCount s_busy (getNetworkId W_ok ''tun0'' s_busy) = Some 1
   \<and> addFwmarkRule K0 W_ok ''tun0'' s_busy = (- 1, s_busy\<lparr>errno := EBUSY\<rparr>)
   \<and> trace (snd (addFwmarkRule K0 W_ok ''tun0'' s_busy)) = []"
proof -
  have h: "mNetIdRuleCount s_busy (getNetworkId W_ok ''tun0'' s_busy) = Some 1"
    by (simp add: s_busy_def getNetworkId_def W_ok_def)
  from enable_on_busy_network [OF h, of K0] h show ?thesis
    by (simp add: s_busy_def)
qed

text \<open>
  Claim C9. The busy guard is shared by both directions: when the network id of the
  interface has a reference count greater than zero, \<^verbatim>\<open>removeFwmarkRule\<close> too issues no
  command, sets \<^verbatim>\<open>errno\<close> to \<^verbatim>\<open>EBUSY\<close>, changes nothing else and returns -1.
\<close>

theorem disable_on_busy_network:
  assumes "mNetIdRuleCount s (getNetworkId W iface s) = Some c" and "0 < sint c"
  shows "removeFwmarkRule K W iface s = (- 1, s\<lparr>errno := EBUSY\<rparr>)
       \<and> fst (removeFwmarkRule K W iface s) \<noteq> 0
       \<and> errno (snd (removeFwmarkRule K W iface s)) = EBUSY
       \<and> trace (snd (removeFwmarkRule K W iface s)) = trace s
       \<and> mNetIdRuleCount (snd (removeFwmarkRule K W iface s)) = mNetIdRuleCount s"
  using assms by (simp add: removeFwmarkRule_def setFwmarkRule_busy)

text \<open>Claim C9 on the example network with one reference.\<close>

theorem disable_on_busy_network_witness:
  "mNetIdRuleCount s_busy (getNetworkId W_ok ''tun0'' s_busy) = Some 1
   \<and> removeFwmarkRule K0 W_ok ''tun0'' s_busy = (- 1, s_busy\<lparr>errno := EBUSY\<rparr>)
   \<and> trace (snd (removeFwmarkRule K0 W_ok ''tun0'' s_busy)) = []"
proof -
  have h: "mNetIdRuleCount s_busy (getNetworkId W_ok ''tun0'' s_busy) = Some 1"
    by (simp add: s_busy_def getNetworkId_def W_ok_def)
  from disable_on_busy_network [OF h, of K0] h show ?thesis
    by (simp add: s_busy_def)
qed

text \<open>
  Past the guard, \<^verbatim>\<open>setFwmarkRule\<close> leaves by one of five exits. The proof runs the
  commands one after the other, naming the status of each (\<open>r1\<close> to \<open>r10\<close>).
\<close>

lemma runCmd_ex:
  "\<exists>r. runCmd W argv (s\<lparr>trace := t\<rparr>) = (r, s\<lparr>trace := t @ [Exec argv r]\<rparr>)"
  by (simp add: runCmd_def Let_def)

lemma execIptables_ex:
  "\<exists>r. execIptables W target args (s\<lparr>trace := t\<rparr>)
     = (r, s\<lparr>trace := t @ [Iptables target args r]\<rparr>)"
  by (simp add: execIptables_def Let_def)

lemma setFwmarkRule_exits_True:
  fixes K W iface s
  defines "mark \<equiv> mark_of K (getNetworkId W iface s)" and "chain \<equiv> chain_of iface"
  assumes clean: "mNetIdRuleCount s (getNetworkId W iface s) = None"
    and run: "setFwmarkRule K W iface True s = (ret, s')"
  shows "\<exists>r1 r2 r3 r4 r5 r6 r7 r8 r9.
     mNetIdRuleCount s' = mNetIdRuleCount s \<and> errno s' = errno s \<and>
     ((r2 \<noteq> 0 \<and> ret = r2 \<and> trace s' = trace s @ stage1 K True iface mark r1 r2)
      \<or> (r4 \<noteq> 0 \<and> ret = r4 \<and> trace s' = trace s @ stage1 K True iface mark r1 0
             @ stage2 K True iface mark r3 r4)
      \<or> (r8 \<noteq> 0 \<and> ret = r8 \<and> trace s' = trace s @ stage1 K True iface mark r1 0
             @ stage2 K True iface mark r3 0 @ stage3 True iface mark chain r5 r6 r7 r8)
      \<or> (ret = 0 \<and> trace s' = trace s @ stage1 K True iface mark r1 0
             @ stage2 K True iface mark r3 0 @ stage3 True iface mark chain r5 r6 r7 0
             @ [Iptables V6 (masquerade_args True iface mark) 0])
      \<or> (r9 \<noteq> 0 \<and> trace s' = trace s @ stage1 K True iface mark r1 0
             @ stage2 K True iface mark r3 0 @ stage3 True iface mark chain r5 r6 r7 0
             @ [Iptables V6 (masquerade_args True iface mark) r9,
                Iptables V6 (reject_args True mark) ret]))"
proof -
  let ?mark = "snprintf 11 (fmt_u (getNetworkId W iface s + BASE_TABLE_NUMBER K))"
  let ?chain = "snprintf (IFNAMSIZ + 18) (LOCAL_MANGLE_IFACE_FORMAT iface)"
  let ?c1 = "route_cmd K True iface ?mark" and ?c2 = "fwmark_cmd K True ?mark"
  let ?c3 = "route6_cmd K True iface ?mark" and ?c4 = "fwmark6_cmd K True ?mark"
  let ?c5 = "new_chain_args ?chain" and ?c6 = "insert_jump_args ?mark ?chain" and ?c7 = "clear_mark_args ?chain"
  let ?c8 = "masquerade_args True iface ?mark" and ?c10 = "reject_args True ?mark"
  obtain r1 where e1: "runCmd W ?c1 s = (r1, s\<lparr>trace := trace s @ [Exec ?c1 r1]\<rparr>)"
    by (simp add: runCmd_def Let_def)
  let ?t1 = "[Exec ?c1 r1]"
  obtain r2 where e2: "runCmd W ?c2 (s\<lparr>trace := trace s @ ?t1\<rparr>)
      = (r2, s\<lparr>trace := trace s @ [Exec ?c1 r1, Exec ?c2 r2]\<rparr>)"
    using runCmd_ex [of W "?c2" "trace s @ ?t1" s, simplified] by blast
  let ?t2 = "[Exec ?c1 r1, Exec ?c2 r2]"
  obtain r3 where e3: "runCmd W ?c3 (s\<lparr>trace := trace s @ ?t2\<rparr>)
      = (r3, s\<lparr>trace := trace s @ [Exec ?c1 r1, Exec ?c2 r2, Exec ?c3 r3]\<rparr>)"
    using runCmd_ex [of W "?c3" "trace s @ ?t2" s, simplified] by blast
  let ?t3 = "[Exec ?c1 r1, Exec ?c2 r2, Exec ?c3 r3]"
  obtain r4 where e4: "runCmd W ?c4 (s\<lparr>trace := trace s @ ?t3\<rparr>)
      = (r4, s\<lparr>trace := trace s @ [Exec ?c1 r1, Exec ?c2 r2, Exec ?c3 r3, Exec ?c4 r4]\<rparr>)"
    using runCmd_ex [of W "?c4" "trace s @ ?t3" s, simplified] by blast
  let ?t4 = "[Exec ?c1 r1, Exec ?c2 r2, Exec ?c3 r3, Exec ?c4 r4]"
  obtain r5 where e5: "execIptables W V4V6 ?c5 (s\<lparr>trace := trace s @ ?t4\<rparr>)
      = (r5, s\<lparr>trace := trace s @ [Exec ?c1 r1, Exec ?c2 r2, Exec ?c3 r3, Exec ?c4 r4, Iptables V4V6 ?c5 r5]\<rparr>)"
    using execIptables_ex [of W V4V6 "?c5" "trace s @ ?t4" s, simplified] by blast
  let ?t5 = "[Exec ?c1 r1, Exec ?c2 r2, Exec ?c3 r3, Exec ?c4 r4, Iptables V4V6 ?c5 r5]"
  obtain r6 where e6: "execIptables W V4V6 ?c6 (s\<lparr>trace := trace s @ ?t5\<rparr>)
      = (r6, s\<lparr>trace := trace s @ [Exec ?c1 r1, Exec ?c2 r2, Exec ?c3 r3, Exec ?c4 r4, Iptables V4V6 ?c5 r5, Iptables V4V6 ?c6 r6]\<rparr>)"
    using execIptables_ex [of W V4V6 "?c6" "trace s @ ?t5" s, simplified] by blast
  let ?t6 = "[Exec ?c1 r1, Exec ?c2 r2, Exec ?c3 r3, Exec ?c4 r4, Iptables V4V6 ?c5 r5, Iptables V4V6 ?c6 r6]"
  obtain r7 where e7: "execIptables W V4V6 ?c7 (s\<lparr>trace := trace s @ ?t6\<rparr>)
      = (r7, s\<lparr>trace := trace s @ [Exec ?c1 r1, Exec ?c2 r2, Exec ?c3 r3, Exec ?c4 r4, Iptables V4V6 ?c5 r5, Iptables V4V6 ?c6 r6, Iptables V4V6 ?c7 r7]\<rparr>)"
    using execIptables_ex [of W V4V6 "?c7" "trace s @ ?t6" s, simplified] by blast
  let ?t7 = "[Exec ?c1 r1, Exec ?c2 r2, Exec ?c3 r3, Exec ?c4 r4, Iptables V4V6 ?c5 r5, Iptables V4V6 ?c6 r6, Iptables V4V6 ?c7 r7]"
  obtain r8 where e8: "execIptables W V4 ?c8 (s\<lparr>trace := trace s @ ?t7\<rparr>)
      = (r8, s\<lparr>trace := trace s @ [Exec ?c1 r1, Exec ?c2 r2, Exec ?c3 r3, Exec ?c4 r4, Iptables V4V6 ?c5 r5, Iptables V4V6 ?c6 r6, Iptables V4V6 ?c7 r7, Iptables V4 ?c8 r8]\<rparr>)"
    using execIptables_ex [of W V4 "?c8" "trace s @ ?t7" s, simplified] by blast
  let ?t8 = "[Exec ?c1 r1, Exec ?c2 r2, Exec ?c3 r3, Exec ?c4 r4, Iptables V4V6 ?c5 r5, Iptables V4V6 ?c6 r6, Iptables V4V6 ?c7 r7, Iptables V4 ?c8 r8]"
  obtain r9 where e9: "execIptables W V6 ?c8 (s\<lparr>trace := trace s @ ?t8\<rparr>)
      = (r9, s\<lparr>trace := trace s @ [Exec ?c1 r1, Exec ?c2 r2, Exec ?c3 r3, Exec ?c4 r4, Iptables V4V6 ?c5 r5, Iptables V4V6 ?c6 r6, Iptables V4V6 ?c7 r7, Iptables V4 ?c8 r8, Iptables V6 ?c8 r9]\<rparr>)"
    using execIptables_ex [of W V6 "?c8" "trace s @ ?t8" s, simplified] by blast
  let ?t9 = "[Exec ?c1 r1, Exec ?c2 r2, Exec ?c3 r3, Exec ?c4 r4, Iptables V4V6 ?c5 r5, Iptables V4V6 ?c6 r6, Iptables V4V6 ?c7 r7, Iptables V4 ?c8 r8, Iptables V6 ?c8 r9]"
  obtain r10 where e10: "execIptables W V6 ?c10 (s\<lparr>trace := trace s @ ?t9\<rparr>)
      = (r10, s\<lparr>trace := trace s @ [Exec ?c1 r1, Exec ?c2 r2, Exec ?c3 r3, Exec ?c4 r4, Iptables V4V6 ?c5 r5, Iptables V4V6 ?c6 r6, Iptables V4V6 ?c7 r7, Iptables V4 ?c8 r8, Iptables V6 ?c8 r9, Iptables V6 ?c10 r10]\<rparr>)"
    using execIptables_ex [of W V6 "?c10" "trace s @ ?t9" s, simplified] by blast
  let ?t10 = "[Exec ?c1 r1, Exec ?c2 r2, Exec ?c3 r3, Exec ?c4 r4, Iptables V4V6 ?c5 r5, Iptables V4V6 ?c6 r6, Iptables V4V6 ?c7 r7, Iptables V4 ?c8 r8, Iptables V6 ?c8 r9, Iptables V6 ?c10 r10]"
  define b2 b4 b8 b9 where "b2 \<longleftrightarrow> r2 \<noteq> 0" and "b4 \<longleftrightarrow> r4 \<noteq> 0"
    and "b8 \<longleftrightarrow> r8 \<noteq> 0" and "b9 \<longleftrightarrow> r9 \<noteq> 0"
  have b: "(r2 \<noteq> 0) = b2" "(r4 \<noteq> 0) = b4" "(r8 \<noteq> 0) = b8" "(r9 \<noteq> 0) = b9"
    by (simp_all add: b2_def b4_def b8_def b9_def)
  have run': "(ret, s') =
     (if r2 \<noteq> 0 then (r2, s\<lparr>trace := trace s @ ?t2\<rparr>)
      else if r4 \<noteq> 0 then (r4, s\<lparr>trace := trace s @ ?t4\<rparr>)
      else if r8 \<noteq> 0 then (r8, s\<lparr>trace := trace s @ ?t8\<rparr>)
      else if r9 \<noteq> 0 then (r10, s\<lparr>trace := trace s @ ?t10\<rparr>)
      else (r9, s\<lparr>trace := trace s @ ?t9\<rparr>))"
    unfolding run [symmetric] setFwmarkRule_def
    using clean by (simp add: map_count_def Let_def e1 e2 e3 e4 e5 e6 e7 e8 e9 e10 b)
  show ?thesis
    apply (rule exI [of _ r1], rule exI [of _ r2], rule exI [of _ r3], rule exI [of _ r4])
    apply (rule exI [of _ r5], rule exI [of _ r6], rule exI [of _ r7], rule exI [of _ r8])
    apply (rule exI [of _ r9])
    using run'
    apply (simp add: mark_def chain_def mark_of_def chain_of_def chain_cmds_def
        stage1_def stage2_def stage3_def split: if_splits)
    done
qed

lemma setFwmarkRule_exits_False:
  fixes K W iface s
  defines "mark \<equiv> mark_of K (getNetworkId W iface s)" and "chain \<equiv> chain_of iface"
  assumes clean: "mNetIdRuleCount s (getNetworkId W iface s) = None"
    and run: "setFwmarkRule K W iface False s = (ret, s')"
  shows "\<exists>r1 r2 r3 r4 r5 r6 r7 r8 r9.
     mNetIdRuleCount s' = mNetIdRuleCount s \<and> errno s' = errno s \<and>
     ((r2 \<noteq> 0 \<and> ret = r2 \<and> trace s' = trace s @ stage1 K False iface mark r1 r2)
      \<or> (r4 \<noteq> 0 \<and> ret = r4 \<and> trace s' = trace s @ stage1 K False iface mark r1 0
             @ stage2 K False iface mark r3 r4)
      \<or> (r8 \<noteq> 0 \<and> ret = r8 \<and> trace s' = trace s @ stage1 K False iface mark r1 0
             @ stage2 K False iface mark r3 0 @ stage3 False iface mark chain r5 r6 r7 r8)
      \<or> (ret = 0 \<and> trace s' = trace s @ stage1 K False iface mark r1 0
             @ stage2 K False iface mark r3 0 @ stage3 False iface mark chain r5 r6 r7 0
             @ [Iptables V6 (masquerade_args False iface mark) 0])
      \<or> (r9 \<noteq> 0 \<and> trace s' = trace s @ stage1 K False iface mark r1 0
             @ stage2 K False iface mark r3 0 @ stage3 False iface mark chain r5 r6 r7 0
             @ [Iptables V6 (masquerade_args False iface mark) r9,
                Iptables V6 (reject_args False mark) ret]))"
proof -
  let ?mark = "snprintf 11 (fmt_u (getNetworkId W iface s + BASE_TABLE_NUMBER K))"
  let ?chain = "snprintf (IFNAMSIZ + 18) (LOCAL_MANGLE_IFACE_FORMAT iface)"
  let ?c1 = "route_cmd K False iface ?mark" and ?c2 = "fwmark_cmd K False ?mark"
  let ?c3 = "route6_cmd K False iface ?mark" and ?c4 = "fwmark6_cmd K False ?mark"
  let ?c5 = "delete_jump_args ?mark ?chain" and ?c6 = "flush_chain_args ?chain" and ?c7 = "delete_chain_args ?chain"
  let ?c8 = "masquerade_args False iface ?mark" and ?c10 = "reject_args False ?mark"
  obtain r1 where e1: "runCmd W ?c1 s = (r1, s\<lparr>trace := trace s @ [Exec ?c1 r1]\<rparr>)"
    by (simp add: runCmd_def Let_def)
  let ?t1 = "[Exec ?c1 r1]"
  obtain r2 where e2: "runCmd W ?c2 (s\<lparr>trace := trace s @ ?t1\<rparr>)
      = (r2, s\<lparr>trace := trace s @ [Exec ?c1 r1, Exec ?c2 r2]\<rparr>)"
    using runCmd_ex [of W "?c2" "trace s @ ?t1" s, simplified] by blast
  let ?t2 = "[Exec ?c1 r1, Exec ?c2 r2]"
  obtain r3 where e3: "runCmd W ?c3 (s\<lparr>trace := trace s @ ?t2\<rparr>)
      = (r3, s\<lparr>trace := trace s @ [Exec ?c1 r1, Exec ?c2 r2, Exec ?c3 r3]\<rparr>)"
    using runCmd_ex [of W "?c3" "trace s @ ?t2" s, simplified] by blast
  let ?t3 = "[Exec ?c1 r1, Exec ?c2 r2, Exec ?c3 r3]"
  obtain r4 where e4: "runCmd W ?c4 (s\<lparr>trace := trace s @ ?t3\<rparr>)
      = (r4, s\<lparr>trace := trace s @ [Exec ?c1 r1, Exec ?c2 r2, Exec ?c3 r3, Exec ?c4 r4]\<rparr>)"
    using runCmd_ex [of W "?c4" "trace s @ ?t3" s, simplified] by blast
  let ?t4 = "[Exec ?c1 r1, Exec ?c2 r2, Exec ?c3 r3, Exec ?c4 r4]"
  obtain r5 where e5: "execIptables W V4V6 ?c5 (s\<lparr>trace := trace s @ ?t4\<rparr>)
      = (r5, s\<lparr>trace := trace s @ [Exec ?c1 r1, Exec ?c2 r2, Exec ?c3 r3, Exec ?c4 r4, Iptables V4V6 ?c5 r5]\<rparr>)"
    using execIptables_ex [of W V4V6 "?c5" "trace s @ ?t4" s, simplified] by blast
  let ?t5 = "[Exec ?c1 r1, Exec ?c2 r2, Exec ?c3 r3, Exec ?c4 r4, Iptables V4V6 ?c5 r5]"
  obtain r6 where e6: "execIptables W V4V6 ?c6 (s\<lparr>trace := trace s @ ?t5\<rparr>)
      = (r6, s\<lparr>trace := trace s @ [Exec ?c1 r1, Exec ?c2 r2, Exec ?c3 r3, Exec ?c4 r4, Iptables V4V6 ?c5 r5, Iptables V4V6 ?c6 r6]\<rparr>)"
    using execIptables_ex [of W V4V6 "?c6" "trace s @ ?t5" s, simplified] by blast
  let ?t6 = "[Exec ?c1 r1, Exec ?c2 r2, Exec ?c3 r3, Exec ?c4 r4, Iptables V4V6 ?c5 r5, Iptables V4V6 ?c6 r6]"
  obtain r7 where e7: "execIptables W V4V6 ?c7 (s\<lparr>trace := trace s @ ?t6\<rparr>)
      = (r7, s\<lparr>trace := trace s @ [Exec ?c1 r1, Exec ?c2 r2, Exec ?c3 r3, Exec ?c4 r4, Iptables V4V6 ?c5 r5, Iptables V4V6 ?c6 r6, Iptables V4V6 ?c7 r7]\<rparr>)"
    using execIptables_ex [of W V4V6 "?c7" "trace s @ ?t6" s, simplified] by blast
  let ?t7 = "[Exec ?c1 r1, Exec ?c2 r2, Exec ?c3 r3, Exec ?c4 r4, Iptables V4V6 ?c5 r5, Iptables V4V6 ?c6 r6, Iptables V4V6 ?c7 r7]"
  obtain r8 where e8: "execIptables W V4 ?c8 (s\<lparr>trace := trace s @ ?t7\<rparr>)
      = (r8, s\<lparr>trace := trace s @ [Exec ?c1 r1, Exec ?c2 r2, Exec ?c3 r3, Exec ?c4 r4, Iptables V4V6 ?c5 r5, Iptables V4V6 ?c6 r6, Iptables V4V6 ?c7 r7, Iptables V4 ?c8 r8]\<rparr>)"
    using execIptables_ex [of W V4 "?c8" "trace s @ ?t7" s, simplified] by blast
  let ?t8 = "[Exec ?c1 r1, Exec ?c2 r2, Exec ?c3 r3, Exec ?c4 r4, Iptables V4V6 ?c5 r5, Iptables V4V6 ?c6 r6, Iptables V4V6 ?c7 r7, Iptables V4 ?c8 r8]"
  obtain r9 where e9: "execIptables W V6 ?c8 (s\<lparr>trace := trace s @ ?t8\<rparr>)
      = (r9, s\<lparr>trace := trace s @ [Exec ?c1 r1, Exec ?c2 r2, Exec ?c3 r3, Exec ?c4 r4, Iptables V4V6 ?c5 r5, Iptables V4V6 ?c6 r6, Iptables V4V6 ?c7 r7, Iptables V4 ?c8 r8, Iptables V6 ?c8 r9]\<rparr>)"
    using execIptables_ex [of W V6 "?c8" "trace s @ ?t8" s, simplified] by blast
  let ?t9 = "[Exec ?c1 r1, Exec ?c2 r2, Exec ?c3 r3, Exec ?c4 r4, Iptables V4V6 ?c5 r5, Iptables V4V6 ?c6 r6, Iptables V4V6 ?c7 r7, Iptables V4 ?c8 r8, Iptables V6 ?c8 r9]"
  obtain r10 where e10: "execIptables W V6 ?c10 (s\<lparr>trace := trace s @ ?t9\<rparr>)
      = (r10, s\<lparr>trace := trace s @ [Exec ?c1 r1, Exec ?c2 r2, Exec ?c3 r3, Exec ?c4 r4, Iptables V4V6 ?c5 r5, Iptables V4V6 ?c6 r6, Iptables V4V6 ?c7 r7, Iptables V4 ?c8 r8, Iptables V6 ?c8 r9, Iptables V6 ?c10 r10]\<rparr>)"
    using execIptables_ex [of W V6 "?c10" "trace s @ ?t9" s, simplified] by blast
  let ?t10 = "[Exec ?c1 r1, Exec ?c2 r2, Exec ?c3 r3, Exec ?c4 r4, Iptables V4V6 ?c5 r5, Iptables V4V6 ?c6 r6, Iptables V4V6 ?c7 r7, Iptables V4 ?c8 r8, Iptables V6 ?c8 r9, Iptables V6 ?c10 r10]"
  define b2 b4 b8 b9 where "b2 \<longleftrightarrow> r2 \<noteq> 0" and "b4 \<longleftrightarrow> r4 \<noteq> 0"
    and "b8 \<longleftrightarrow> r8 \<noteq> 0" and "b9 \<longleftrightarrow> r9 \<noteq> 0"
  have b: "(r2 \<noteq> 0) = b2" "(r4 \<noteq> 0) = b4" "(r8 \<noteq> 0) = b8" "(r9 \<noteq> 0) = b9"
    by (simp_all add: b2_def b4_def b8_def b9_def)
  have run': "(ret, s') =
     (if r2 \<noteq> 0 then (r2, s\<lparr>trace := trace s @ ?t2\<rparr>)
      else if r4 \<noteq> 0 then (r4, s\<lparr>trace := trace s @ ?t4\<rparr>)
      else if r8 \<noteq> 0 then (r8, s\<lparr>trace := trace s @ ?t8\<rparr>)
      else if r9 \<noteq> 0 then (r10, s\<lparr>trace := trace s @ ?t10\<rparr>)
      else (r9, s\<lparr>trace := trace s @ ?t9\<rparr>))"
    unfolding run [symmetric] setFwmarkRule_def
    using clean by (simp add: map_count_def Let_def e1 e2 e3 e4 e5 e6 e7 e8 e9 e10 b)
  show ?thesis
    apply (rule exI [of _ r1], rule exI [of _ r2], rule exI [of _ r3], rule exI [of _ r4])
    apply (rule exI [of _ r5], rule exI [of _ r6], rule exI [of _ r7], rule exI [of _ r8])
    apply (rule exI [of _ r9])
    using run'
    apply (simp add: mark_def chain_def mark_of_def chain_of_def chain_cmds_def
        stage1_def stage2_def stage3_def split: if_splits)
    done
qed

lemma setFwmarkRule_exits:
  fixes K W iface s
  defines "mark \<equiv> mark_of K (getNetworkId W iface s)" and "chain \<equiv> chain_of iface"
  assumes clean: "mNetIdRuleCount s (getNetworkId W iface s) = None"
    and run: "setFwmarkRule K W iface add s = (ret, s')"
  shows "\<exists>r1 r2 r3 r4 r5 r6 r7 r8 r9.
     mNetIdRuleCount s' = mNetIdRuleCount s \<and> errno s' = errno s \<and>
     ((r2 \<noteq> 0 \<and> ret = r2 \<and> trace s' = trace s @ stage1 K add iface mark r1 r2)
      \<or> (r4 \<noteq> 0 \<and> ret = r4 \<and> trace s' = trace s @ stage1 K add iface mark r1 0
             @ stage2 K add iface mark r3 r4)
      \<or> (r8 \<noteq> 0 \<and> ret = r8 \<and> trace s' = trace s @ stage1 K add iface mark r1 0
             @ stage2 K add iface mark r3 0 @ stage3 add iface mark chain r5 r6 r7 r8)
      \<or> (ret = 0 \<and> trace s' = trace s @ stage1 K add iface mark r1 0
             @ stage2 K add iface mark r3 0 @ stage3 add iface mark chain r5 r6 r7 0
             @ [Iptables V6 (masquerade_args add iface mark) 0])
      \<or> (r9 \<noteq> 0 \<and> trace s' = trace s @ stage1 K add iface mark r1 0
             @ stage2 K add iface mark r3 0 @ stage3 add iface mark chain r5 r6 r7 0
             @ [Iptables V6 (masquerade_args add iface mark) r9,
                Iptables V6 (reject_args add mark) ret]))"
  unfolding mark_def chain_def
  using setFwmarkRule_exits_True [OF clean, of K ret s']
    setFwmarkRule_exits_False [OF clean, of K ret s'] run
  by (cases add) simp_all

lemma setFwmarkRule_counts:
  "mNetIdRuleCount (snd (setFwmarkRule K W iface add s)) = mNetIdRuleCount s"
proof (cases "mNetIdRuleCount s (getNetworkId W iface s)")
  case None
  obtain ret s' where run: "setFwmarkRule K W iface add s = (ret, s')"
    by (cases "setFwmarkRule K W iface add s")
  from setFwmarkRule_exits [OF None run] have "mNetIdRuleCount s' = mNetIdRuleCount s"
    by blast
  with run show ?thesis by simp
next
  case (Some c)
  then show ?thesis by (simp add: setFwmarkRule_busy)
qed

lemma setFwmarkRule_first_steps:
  assumes clean: "mNetIdRuleCount s (getNetworkId W iface s) = None"
  shows "\<exists>r1 r2 rest. trace (snd (setFwmarkRule K W iface add s)) =
     trace s @ Exec (route_cmd K add iface (mark_of K (getNetworkId W iface s))) r1
       # Exec (fwmark_cmd K add (mark_of K (getNetworkId W iface s))) r2 # rest"
proof -
  obtain ret s' where run: "setFwmarkRule K W iface add s = (ret, s')"
    by (cases "setFwmarkRule K W iface add s")
  from setFwmarkRule_exits [OF clean run] show ?thesis
    unfolding run by (elim exE conjE disjE) (auto simp add: stage1_def)
qed

text \<open>Runs of \<^verbatim>\<open>addFwmarkRule\<close> on the example network, in the example worlds.\<close>

lemma enable_route_fails:
  "addFwmarkRule K0 W_route_fails ''tun0'' s_clean =
     (0, s_clean\<lparr>trace :=
        stage1 K0 True ''tun0'' ''1005'' 1 0 @ stage2 K0 True ''tun0'' ''1005'' 0 0
        @ stage3 True ''tun0'' ''1005'' ''st_mangle_tun0_OUTPUT'' 0 0 0 0
        @ [Iptables V6 (masquerade_args True ''tun0'' ''1005'') 0]\<rparr>)"
  by (simp add: addFwmarkRule_def setFwmarkRule_def runCmd_def execIptables_def Let_def
      getNetworkId_def map_count_def W_route_fails_def W_ok_def s_clean_def mark_tun0 chain_tun0
      stage1_def stage2_def stage3_def chain_cmds_def cmd_defs)


lemma enable_no_nat6:
  "addFwmarkRule K0 W_no_nat6 ''tun0'' s_clean =
     (0, s_clean\<lparr>trace :=
        stage1 K0 True ''tun0'' ''1005'' 0 0 @ stage2 K0 True ''tun0'' ''1005'' 0 0
        @ stage3 True ''tun0'' ''1005'' ''st_mangle_tun0_OUTPUT'' 0 0 0 0
        @ [Iptables V6 (masquerade_args True ''tun0'' ''1005'') 1,
           Iptables V6 (reject_args True ''1005'') 0]\<rparr>)"
  by (simp add: addFwmarkRule_def setFwmarkRule_def runCmd_def execIptables_def Let_def
      getNetworkId_def map_count_def W_no_nat6_def W_ok_def s_clean_def mark_tun0 chain_tun0
      stage1_def stage2_def stage3_def chain_cmds_def cmd_defs)

text \<open>The same runs with every command written out.\<close>

lemma stage_literals:
  "stage1 K0 True ''tun0'' ''1005'' r1 r2 =
     [Exec [''/system/bin/ip'', ''route'', ''add'', ''default'', ''dev'', ''tun0'',
            ''table'', ''1005''] r1,
      Exec [''/system/bin/ip'', ''rule'', ''add'', ''prio'', ''20'', ''fwmark'', ''1005'',
            ''table'', ''1005''] r2]"
  "stage2 K0 True ''tun0'' ''1005'' r3 r4 =
     [Exec [''/system/bin/ip'', ''-6'', ''route'', ''add'', ''default'', ''dev'', ''tun0'',
            ''table'', ''1005''] r3,
      Exec [''/system/bin/ip'', ''-6'', ''rule'', ''add'', ''prio'', ''20'', ''fwmark'',
            ''1005'', ''table'', ''1005''] r4]"
  "stage3 True ''tun0'' ''1005'' ''st_mangle_tun0_OUTPUT'' r5 r6 r7 r8 =
     [Iptables V4V6 [''-t'', ''mangle'', ''-N'', ''st_mangle_tun0_OUTPUT''] r5,
      Iptables V4V6 [''-t'', ''mangle'', ''-I'', ''st_mangle_OUTPUT'', ''3'', ''-m'', ''mark'',
                     ''--mark'', ''1005'', ''-g'', ''st_mangle_tun0_OUTPUT''] r6,
      Iptables V4V6 [''-t'', ''mangle'', ''-A'', ''st_mangle_tun0_OUTPUT'', ''-j'', ''MARK'',
                     ''--set-mark'', ''0''] r7,
      Iptables V4 [''-t'', ''nat'', ''-A'', ''st_nat_POSTROUTING'', ''-o'', ''tun0'', ''-m'',
                   ''mark'', ''--mark'', ''1005'', ''-j'', ''MASQUERADE''] r8]"
  by (simp_all add: stage1_def stage2_def stage3_def chain_cmds_def cmd_defs K0_def
      LOCAL_MANGLE_OUTPUT_def LOCAL_NAT_POSTROUTING_def)


lemma enable_no_nat6_literal:
  "addFwmarkRule K0 W_no_nat6 ''tun0'' s_clean =
     (0, s_clean\<lparr>trace :=
        [Exec [''/system/bin/ip'', ''route'', ''add'', ''default'', ''dev'', ''tun0'',
               ''table'', ''1005''] 0,
         Exec [''/system/bin/ip'', ''rule'', ''add'', ''prio'', ''20'', ''fwmark'', ''1005'',
               ''table'', ''1005''] 0,
         Exec [''/system/bin/ip'', ''-6'', ''route'', ''add'', ''default'', ''dev'', ''tun0'',
               ''table'', ''1005''] 0,
         Exec [''/system/bin/ip'', ''-6'', ''rule'', ''add'', ''prio'', ''20'', ''fwmark'',
               ''1005'', ''table'', ''1005''] 0,
         Iptables V4V6 [''-t'', ''mangle'', ''-N'', ''st_mangle_tun0_OUTPUT''] 0,
         Iptables V4V6 [''-t'', ''mangle'', ''-I'', ''st_mangle_OUTPUT'', ''3'', ''-m'', ''mark'',
                        ''--mark'', ''1005'', ''-g'', ''st_mangle_tun0_OUTPUT''] 0,
         Iptables V4V6 [''-t'', ''mangle'', ''-A'', ''st_mangle_tun0_OUTPUT'', ''-j'', ''MARK'',
                        ''--set-mark'', ''0''] 0,
         Iptables V4 [''-t'', ''nat'', ''-A'', ''st_nat_POSTROUTING'', ''-o'', ''tun0'', ''-m'',
                      ''mark'', ''--mark'', ''1005'', ''-j'', ''MASQUERADE''] 0,
         Iptables V6 [''-t'', ''nat'', ''-A'', ''st_nat_POSTROUTING'', ''-o'', ''tun0'', ''-m'',
                      ''mark'', ''--mark'', ''1005'', ''-j'', ''MASQUERADE''] 1,
         Iptables V6 [''-t'', ''filter'', ''-A'', ''st_filter_OUTPUT'', ''-m'', ''mark'',
                      ''--mark'', ''1005'', ''-j'', ''REJECT''] 0]\<rparr>)"
  by (simp add: enable_no_nat6 stage_literals masquerade_args_def reject_args_def
      LOCAL_NAT_POSTROUTING_def LOCAL_FILTER_OUTPUT_def)


text \<open>
  Claim C10. \<^verbatim>\<open>addFwmarkRule\<close> and \<^verbatim>\<open>removeFwmarkRule\<close> leave \<^verbatim>\<open>mNetIdRuleCount\<close> as it
  was, whatever the commands return. So after an enable that passed the busy guard, a
  second enable of the same interface (resolving to the same network id) passes the guard
  again: it goes on to issue the v4 route and rule commands.
\<close>

theorem fwmark_rule_keeps_counts:
  "mNetIdRuleCount (snd (addFwmarkRule K W iface s)) = mNetIdRuleCount s
   \<and> mNetIdRuleCount (snd (removeFwmarkRule K W iface s)) = mNetIdRuleCount s
   \<and> (mNetIdRuleCount s (getNetworkId W iface s) = None
        \<and> getNetworkId W iface (snd (addFwmarkRule K W iface s)) = getNetworkId W iface s
      \<longrightarrow> (\<exists>r1 r2 rest.
            trace (snd (addFwmarkRule K W iface (snd (addFwmarkRule K W iface s))))
            = trace (snd (addFwmarkRule K W iface s))
              @ Exec (route_cmd K True iface (mark_of K (getNetworkId W iface s))) r1
              # Exec (fwmark_cmd K True (mark_of K (getNetworkId W iface s))) r2 # rest))"
proof (intro conjI impI)
  show "mNetIdRuleCount (snd (addFwmarkRule K W iface s)) = mNetIdRuleCount s"
    by (simp add: addFwmarkRule_def setFwmarkRule_counts)
  show "mNetIdRuleCount (snd (removeFwmarkRule K W iface s)) = mNetIdRuleCount s"
    by (simp add: removeFwmarkRule_def setFwmarkRule_counts)
next
  let ?s1 = "snd (addFwmarkRule K W iface s)"
  assume h: "mNetIdRuleCount s (getNetworkId W iface s) = None
        \<and> getNetworkId W iface ?s1 = getNetworkId W iface s"
  have "mNetIdRuleCount ?s1 = mNetIdRuleCount s"
    by (simp add: addFwmarkRule_def setFwmarkRule_counts)
  with h have clean1: "mNetIdRuleCount ?s1 (getNetworkId W iface ?s1) = None"
    by simp
  from setFwmarkRule_first_steps [OF clean1, of K True] h
  show "\<exists>r1 r2 rest.
            trace (snd (addFwmarkRule K W iface ?s1))
            = trace ?s1
              @ Exec (route_cmd K True iface (mark_of K (getNetworkId W iface s))) r1
              # Exec (fwmark_cmd K True (mark_of K (getNetworkId W iface s))) r2 # rest"
    by (simp add: addFwmarkRule_def)
qed

text \<open>Claim C10 on two enables in a row of the example network.\<close>

theorem fwmark_rule_keeps_counts_witness:
  "mNetIdRuleCount s_clean (getNetworkId W_ok ''tun0'' s_clean) = None
   \<and> getNetworkId W_ok ''tun0'' (snd (addFwmarkRule K0 W_ok ''tun0'' s_clean))
       = getNetworkId W_ok ''tun0'' s_clean
   \<and> mNetIdRuleCount (snd (addFwmarkRule K0 W_ok ''tun0'' s_clean)) = Map.empty
   \<and> (\<exists>r1 r2 rest.
        trace (snd (addFwmarkRule K0 W_ok ''tun0'' (snd (addFwmarkRule K0 W_ok ''tun0'' s_clean))))
        = trace (snd (addFwmarkRule K0 W_ok ''tun0'' s_clean))
          @ Exec (route_cmd K0 True ''tun0'' ''1005'') r1
          # Exec (fwmark_cmd K0 True ''1005'') r2 # rest)"
proof -
  have h: "mNetIdRuleCount s_clean (getNetworkId W_ok ''tun0'' s_clean) = None
      \<and> getNetworkId W_ok ''tun0'' (snd (addFwmarkRule K0 W_ok ''tun0'' s_clean))
          = getNetworkId W_ok ''tun0'' s_clean"
    by (simp add: s_clean_def getNetworkId_def W_ok_def)
  have m: "mark_of K0 (getNetworkId W_ok ''tun0'' s_clean) = ''1005''"
    by (simp add: getNetworkId_def W_ok_def mark_example)
  have e: "mNetIdRuleCount s_clean = Map.empty"
    by (simp add: s_clean_def)
  from fwmark_rule_keeps_counts [of K0 W_ok "''tun0''" s_clean, unfolded m] h e
  show ?thesis
    by simp
qed

text \<open>The commands of \<^verbatim>\<open>setFwmarkRule\<close> differ from one another.\<close>

lemma cmd_distinct:
  "fwmark_cmd K add m \<noteq> route_cmd K add i m"
  "fwmark_cmd K add m \<noteq> route6_cmd K add i m"
  "fwmark_cmd K add m \<noteq> fwmark6_cmd K add m"
  "fwmark6_cmd K add m \<noteq> route_cmd K add i m"
  "fwmark6_cmd K add m \<noteq> route6_cmd K add i m"
  "fwmark6_cmd K add m \<noteq> fwmark_cmd K add m"
  "masquerade_args add i m \<noteq> reject_args add m"
  "reject_args add m \<noteq> masquerade_args add i m"
  by (simp_all add: fwmark_cmd_def route_cmd_def route6_cmd_def fwmark6_cmd_def
      masquerade_args_def reject_args_def)




text \<open>
  A remark on the code: the status of the v4 default route is replaced by that of the v4
  fwmark rule, so that where only the route command fails all the steps run and the
  result is 0.
\<close>

lemma dropped_route_status:
  "addFwmarkRule K0 W_route_fails ''tun0'' s_clean =
     (0, s_clean\<lparr>trace :=
        stage1 K0 True ''tun0'' ''1005'' 1 0 @ stage2 K0 True ''tun0'' ''1005'' 0 0
        @ stage3 True ''tun0'' ''1005'' ''st_mangle_tun0_OUTPUT'' 0 0 0 0
        @ [Iptables V6 (masquerade_args True ''tun0'' ''1005'') 0]\<rparr>)"
  by (rule enable_route_fails)

text \<open>
  How \<^verbatim>\<open>addFwmarkRule\<close> ends, in terms of the argument vectors of the IPv6 NAT rule and
  of the REJECT rule.
\<close>

lemma setFwmarkRule_nat6:
  fixes K W iface s
  defines "mark \<equiv> mark_of K (getNetworkId W iface s)"
  assumes run: "addFwmarkRule K W iface s = (ret, s')"
    and evs: "trace s' = trace s @ evs"
  shows "(\<forall>r. r \<noteq> 0 \<and> Iptables V6 (masquerade_args True iface mark) r \<in> set evs
            \<longrightarrow> (\<exists>pre. evs = pre @ [Iptables V6 (masquerade_args True iface mark) r,
                                   Iptables V6 (reject_args True mark) ret]))
       \<and> (Iptables V6 (masquerade_args True iface mark) 0 \<in> set evs
            \<longrightarrow> (\<forall>r. Iptables V6 (reject_args True mark) r \<notin> set evs))
       \<and> (Iptables V4 (masquerade_args True iface mark) 0 \<in> set evs
            \<longrightarrow> (\<exists>r. Iptables V6 (masquerade_args True iface mark) r \<in> set evs))"
proof (cases "mNetIdRuleCount s (getNetworkId W iface s)")
  case (Some c)
  with run evs have "evs = []"
    by (auto simp add: addFwmarkRule_def setFwmarkRule_busy)
  then show ?thesis by simp
next
  case None
  from run have run': "setFwmarkRule K W iface True s = (ret, s')"
    by (simp add: addFwmarkRule_def)
  let ?chain = "chain_of iface"
  from setFwmarkRule_exits [OF None run', folded mark_def]
  show ?thesis
    unfolding evs same_append_eq
  proof (elim exE conjE disjE)
    fix r1 r2 r3 r4 r5 r6 r7 r8 r9 :: c_int
    assume "r2 \<noteq> 0" "ret = r2" "evs = stage1 K True iface mark r1 r2"
    then show ?thesis
      by (simp add: stage1_def cmd_distinct)
  next
    fix r1 r2 r3 r4 r5 r6 r7 r8 r9 :: c_int
    assume "r4 \<noteq> 0" "ret = r4"
      "evs = stage1 K True iface mark r1 0 @ stage2 K True iface mark r3 r4"
    then show ?thesis
      by (simp add: stage1_def stage2_def cmd_distinct)
  next
    fix r1 r2 r3 r4 r5 r6 r7 r8 r9 :: c_int
    assume "r8 \<noteq> 0" "ret = r8"
      "evs = stage1 K True iface mark r1 0 @ stage2 K True iface mark r3 0
         @ stage3 True iface mark ?chain r5 r6 r7 r8"
    then show ?thesis
      by (simp add: stage1_def stage2_def stage3_def cmd_distinct)
  next
    fix r1 r2 r3 r4 r5 r6 r7 r8 r9 :: c_int
    assume "ret = 0"
      "evs = stage1 K True iface mark r1 0 @ stage2 K True iface mark r3 0
         @ stage3 True iface mark ?chain r5 r6 r7 0
         @ [Iptables V6 (masquerade_args True iface mark) 0]"
    then show ?thesis
      by (simp add: stage1_def stage2_def stage3_def cmd_distinct)
  next
    fix r1 r2 r3 r4 r5 r6 r7 r8 r9 :: c_int
    assume a: "r9 \<noteq> 0"
      "evs = stage1 K True iface mark r1 0 @ stage2 K True iface mark r3 0
         @ stage3 True iface mark ?chain r5 r6 r7 0
         @ [Iptables V6 (masquerade_args True iface mark) r9,
            Iptables V6 (reject_args True mark) ret]"
    have "evs = (stage1 K True iface mark r1 0 @ stage2 K True iface mark r3 0
         @ stage3 True iface mark ?chain r5 r6 r7 0)
         @ [Iptables V6 (masquerade_args True iface mark) r9,
            Iptables V6 (reject_args True mark) ret]"
      using a by simp
    then have "\<exists>pre. evs = pre @ [Iptables V6 (masquerade_args True iface mark) r9,
            Iptables V6 (reject_args True mark) ret]"
      by (rule exI)
    moreover have "\<forall>r. Iptables V6 (masquerade_args True iface mark) r \<in> set evs \<longrightarrow> r = r9"
      using a by (simp add: stage1_def stage2_def stage3_def cmd_distinct)
    ultimately show ?thesis
      using a(1) by auto
  qed
qed

text \<open>The two argument vectors, written out.\<close>

lemma masquerade_args_add:
  "masquerade_args True iface mark_str =
     [''-t'', ''nat'', ''-A'', ''st_nat_POSTROUTING'', ''-o'', iface, ''-m'', ''mark'', ''--mark'',
      mark_str, ''-j'', ''MASQUERADE'']"
  by (simp add: masquerade_args_def LOCAL_NAT_POSTROUTING_def)

lemma reject_args_add:
  "reject_args True mark_str =
     [''-t'', ''filter'', ''-A'', ''st_filter_OUTPUT'', ''-m'', ''mark'', ''--mark'', mark_str,
      ''-j'', ''REJECT'']"
  by (simp add: reject_args_def LOCAL_FILTER_OUTPUT_def)

text \<open>
  Claim C7. In a run of \<^verbatim>\<open>addFwmarkRule\<close>, with \<open>mark\<close> the mark of the interface's
  network: if the IPv6 NAT masquerade command (\<^verbatim>\<open>-t nat -A st_nat_POSTROUTING -o iface
  -m mark --mark mark -j MASQUERADE\<close>, for IPv6) was issued and failed, the IPv6 REJECT
  rule for that mark (\<^verbatim>\<open>-t filter -A st_filter_OUTPUT -m mark --mark mark -j REJECT\<close>, for
  IPv6) is attempted right after it, as the last step, and its status is the result; if
  the IPv6 NAT command succeeded, no such REJECT rule is issued. The IPv6 NAT command is
  issued whenever the IPv4 NAT command succeeded.
\<close>

theorem nat6_reject_fallback:
  fixes K W iface s
  defines "mark \<equiv> mark_of K (getNetworkId W iface s)"
  defines "nat_rule \<equiv> [''-t'', ''nat'', ''-A'', ''st_nat_POSTROUTING'', ''-o'', iface,
                         ''-m'', ''mark'', ''--mark'', mark, ''-j'', ''MASQUERADE'']"
    and "reject_rule \<equiv> [''-t'', ''filter'', ''-A'', ''st_filter_OUTPUT'',
                         ''-m'', ''mark'', ''--mark'', mark, ''-j'', ''REJECT'']"
  assumes run: "addFwmarkRule K W iface s = (ret, s')"
    and evs: "trace s' = trace s @ evs"
  shows "(\<forall>r. r \<noteq> 0 \<and> Iptables V6 nat_rule r \<in> set evs
            \<longrightarrow> (\<exists>pre. evs = pre @ [Iptables V6 nat_rule r, Iptables V6 reject_rule ret]))
       \<and> (Iptables V6 nat_rule 0 \<in> set evs
            \<longrightarrow> (\<forall>r. Iptables V6 reject_rule r \<notin> set evs))
       \<and> (Iptables V4 nat_rule 0 \<in> set evs
            \<longrightarrow> (\<exists>r. Iptables V6 nat_rule r \<in> set evs))"
  using setFwmarkRule_nat6 [OF run evs]
  unfolding mark_def nat_rule_def reject_rule_def masquerade_args_add reject_args_add
  by simp

text \<open>Claim C7 on a kernel without IPv6 NAT.\<close>

theorem nat6_reject_fallback_witness:
  "fst (addFwmarkRule K0 W_no_nat6 ''tun0'' s_clean) = 0
   \<and> Iptables V6 [''-t'', ''nat'', ''-A'', ''st_nat_POSTROUTING'', ''-o'', ''tun0'',
                   ''-m'', ''mark'', ''--mark'', ''1005'', ''-j'', ''MASQUERADE''] 1
       \<in> set (trace (snd (addFwmarkRule K0 W_no_nat6 ''tun0'' s_clean)))
   \<and> (\<exists>pre. trace (snd (addFwmarkRule K0 W_no_nat6 ''tun0'' s_clean))
        = pre @ [Iptables V6 [''-t'', ''nat'', ''-A'', ''st_nat_POSTROUTING'', ''-o'', ''tun0'',
                   ''-m'', ''mark'', ''--mark'', ''1005'', ''-j'', ''MASQUERADE''] 1,
                 Iptables V6 [''-t'', ''filter'', ''-A'', ''st_filter_OUTPUT'',
                   ''-m'', ''mark'', ''--mark'', ''1005'', ''-j'', ''REJECT''] 0])"
proof -
  let ?nat = "[''-t'', ''nat'', ''-A'', ''st_nat_POSTROUTING'', ''-o'', ''tun0'',
                   ''-m'', ''mark'', ''--mark'', ''1005'', ''-j'', ''MASQUERADE'']"
  let ?L = "[Exec [''/system/bin/ip'', ''route'', ''add'', ''default'', ''dev'', ''tun0'',
               ''table'', ''1005''] 0,
         Exec [''/system/bin/ip'', ''rule'', ''add'', ''prio'', ''20'', ''fwmark'', ''1005'',
               ''table'', ''1005''] 0,
         Exec [''/system/bin/ip'', ''-6'', ''route'', ''add'', ''default'', ''dev'', ''tun0'',
               ''table'', ''1005''] 0,
         Exec [''/system/bin/ip'', ''-6'', ''rule'', ''add'', ''prio'', ''20'', ''fwmark'',
               ''1005'', ''table'', ''1005''] 0,
         Iptables V4V6 [''-t'', ''mangle'', ''-N'', ''st_mangle_tun0_OUTPUT''] 0,
         Iptables V4V6 [''-t'', ''mangle'', ''-I'', ''st_mangle_OUTPUT'', ''3'', ''-m'', ''mark'',
                        ''--mark'', ''1005'', ''-g'', ''st_mangle_tun0_OUTPUT''] 0,
         Iptables V4V6 [''-t'', ''mangle'', ''-A'', ''st_mangle_tun0_OUTPUT'', ''-j'', ''MARK'',
                        ''--set-mark'', ''0''] 0,
         Iptables V4 [''-t'', ''nat'', ''-A'', ''st_nat_POSTROUTING'', ''-o'', ''tun0'', ''-m'',
                      ''mark'', ''--mark'', ''1005'', ''-j'', ''MASQUERADE''] 0,
         Iptables V6 [''-t'', ''nat'', ''-A'', ''st_nat_POSTROUTING'', ''-o'', ''tun0'', ''-m'',
                      ''mark'', ''--mark'', ''1005'', ''-j'', ''MASQUERADE''] 1,
         Iptables V6 [''-t'', ''filter'', ''-A'', ''st_filter_OUTPUT'', ''-m'', ''mark'',
                      ''--mark'', ''1005'', ''-j'', ''REJECT''] 0]"
  have evs: "trace (s_clean\<lparr>trace := ?L\<rparr>) = trace s_clean @ ?L"
    by (simp add: s_clean_def)
  have m: "mark_of K0 (getNetworkId W_no_nat6 ''tun0'' s_clean) = ''1005''"
    by (simp add: getNetworkId_def W_no_nat6_def W_ok_def mark_example)
  have i: "(1 :: c_int) \<noteq> 0 \<and> Iptables V6 ?nat 1 \<in> set ?L"
    by simp
  note f = nat6_reject_fallback [OF enable_no_nat6_literal evs, unfolded m,
      THEN conjunct1, rule_format, of 1]
  from f [OF i] i show ?thesis
    by (simp add: enable_no_nat6_literal)
qed

section \<open>Route table manager: properties\<close>

text \<open>
  \<^verbatim>\<open>modifyRoute\<close> in one piece: the command it runs, and the two outcomes by the status
  of that command.
\<close>

lemma fmt_d_8: "fmt_d 8 = ''8''"
  by (simp add: fmt_d_def dec.simps digit_char_def)

lemma modifyRoute_eq:
  "modifyRoute K W action iface dest prefix gateway netId s =
     (let argv = (if gateway = ''::'' then
                    [IP_PATH K, ''route'', action, snprintf 44 (dest @ ''/'' @ fmt_d prefix),
                     ''dev'', iface, ''table'', mark_of K netId]
                  else
                    [IP_PATH K, ''route'', action, snprintf 44 (dest @ ''/'' @ fmt_d prefix),
                     ''via'', gateway, ''dev'', iface, ''table'', mark_of K netId]);
          st = exec_status W (trace s) argv
      in if st \<noteq> 0 then
           (- 1, s\<lparr>errno := ENODEV,
                   trace := trace s @ [Exec argv st,
                     SendMsg OperationFailed ''ip route modification failed'' True]\<rparr>)
         else
           (0, s\<lparr>mNetIdRuleCount := modifyRuleCount K netId action (mNetIdRuleCount s),
                 trace := trace s @ [Exec argv 0, SendMsg CommandOkay ''Route modified'' False]\<rparr>))"
  by (simp add: modifyRoute_def runCmd_def sendMsg_def Let_def mark_of_def)

text \<open>
  Claim C5. A call of \<^verbatim>\<open>addRoute\<close> or \<^verbatim>\<open>removeRoute\<close> runs one route command and sends
  one message. If the command fails, the call returns -1, the message is
  \<^verbatim>\<open>OperationFailed\<close>, \<^verbatim>\<open>errno\<close> is \<^verbatim>\<open>ENODEV\<close> and the reference-count map is as it was.
  If the command succeeds, the call returns 0, the message is \<^verbatim>\<open>CommandOkay\<close>, and the count
  of the network id is incremented (\<^verbatim>\<open>addRoute\<close>) or decremented (\<^verbatim>\<open>removeRoute\<close>: the
  entry goes when the new count is below 1, and nothing happens when there is no entry). So
  a call that reports failure leaves the map as it was. \<^verbatim>\<open>ADD\<close> and \<^verbatim>\<open>DEL\<close> are different
  strings.
\<close>

theorem route_outcome:
  fixes K W iface s
  defines "netId \<equiv> getNetworkId W iface s"
  assumes ne: "ADD K \<noteq> DEL K"
    and run: "(if add then addRoute K W iface dest prefix gateway s
               else removeRoute K W iface dest prefix gateway s) = (ret, s')"
  shows "(\<exists>argv st msg. trace s' = trace s @ [Exec argv st, msg]
          \<and> (st \<noteq> 0 \<longrightarrow> ret = - 1
                \<and> msg = SendMsg OperationFailed ''ip route modification failed'' True
                \<and> errno s' = ENODEV
                \<and> mNetIdRuleCount s' = mNetIdRuleCount s)
          \<and> (st = 0 \<longrightarrow> ret = 0
                \<and> msg = SendMsg CommandOkay ''Route modified'' False
                \<and> errno s' = errno s
                \<and> mNetIdRuleCount s' =
                    (if add then
                       (mNetIdRuleCount s)
                         (netId \<mapsto> (case mNetIdRuleCount s netId of None \<Rightarrow> 1 | Some c \<Rightarrow> c + 1))
                     else
                       (case mNetIdRuleCount s netId of
                          None \<Rightarrow> mNetIdRuleCount s
                        | Some c \<Rightarrow> if sint (c - 1) < 1 then (mNetIdRuleCount s)(netId := None)
                                   else (mNetIdRuleCount s)(netId \<mapsto> c - 1)))))
       \<and> (ret \<noteq> 0 \<longrightarrow> mNetIdRuleCount s' = mNetIdRuleCount s)"
proof (cases add)
  case True
  with run have "modifyRoute K W (ADD K) iface dest prefix gateway netId s = (ret, s')"
    by (simp add: addRoute_def netId_def)
  then show ?thesis
    using True
    by (auto simp add: modifyRoute_eq Let_def modifyRuleCount_ADD split: if_splits)
next
  case False
  with run have "modifyRoute K W (DEL K) iface dest prefix gateway netId s = (ret, s')"
    by (simp add: removeRoute_def netId_def)
  moreover have "DEL K \<noteq> ADD K" using ne by simp
  ultimately show ?thesis
    using False
    by (auto simp add: modifyRoute_eq Let_def modifyRuleCount_not_ADD
        split: if_splits option.splits)
qed

text \<open>Runs on the example network.\<close>

lemma add_route_ok:
  "addRoute K0 W_ok ''tun0'' ''10.0.0.0'' 8 ''0.0.0.0'' s_clean =
     (0, \<lparr>mNetIdRuleCount = [5 \<mapsto> 1], errno = 0,
          trace = [Exec [''/system/bin/ip'', ''route'', ''add'', ''10.0.0.0/8'', ''via'',
                         ''0.0.0.0'', ''dev'', ''tun0'', ''table'', ''1005''] 0,
                   SendMsg CommandOkay ''Route modified'' False]\<rparr>)"
  by (simp add: addRoute_def modifyRoute_eq Let_def getNetworkId_def W_ok_def s_clean_def
      mark_example fmt_d_8 snprintf_def modifyRuleCount_def map_count_def map_at_def K0_def
      mark_example [unfolded K0_def])

lemma add_route_fails:
  "addRoute K0 W_ip_fails ''tun0'' ''10.0.0.0'' 8 ''::'' s_clean =
     (- 1, \<lparr>mNetIdRuleCount = Map.empty, errno = ENODEV,
          trace = [Exec [''/system/bin/ip'', ''route'', ''add'', ''10.0.0.0/8'',
                         ''dev'', ''tun0'', ''table'', ''1005''] 1,
                   SendMsg OperationFailed ''ip route modification failed'' True]\<rparr>)"
  by (simp add: addRoute_def modifyRoute_eq Let_def getNetworkId_def W_ip_fails_def W_ok_def
      s_clean_def fmt_d_8 snprintf_def K0_def mark_example [unfolded K0_def])

lemma remove_route_ok:
  "removeRoute K0 W_ok ''tun0'' ''10.0.0.0'' 8 ''::'' s_busy =
     (0, \<lparr>mNetIdRuleCount = Map.empty, errno = 0,
          trace = [Exec [''/system/bin/ip'', ''route'', ''del'', ''10.0.0.0/8'',
                         ''dev'', ''tun0'', ''table'', ''1005''] 0,
                   SendMsg CommandOkay ''Route modified'' False]\<rparr>)"
  by (simp add: removeRoute_def modifyRoute_eq Let_def getNetworkId_def W_ok_def s_busy_def
      fmt_d_8 snprintf_def modifyRuleCount_def map_count_def map_at_def K0_def
      mark_example [unfolded K0_def])

text \<open>Claim C5 on a route added with success and on one whose command fails.\<close>

theorem route_outcome_witness:
  "ADD K0 \<noteq> DEL K0
   \<and> addRoute K0 W_ok ''tun0'' ''10.0.0.0'' 8 ''0.0.0.0'' s_clean =
     (0, \<lparr>mNetIdRuleCount = [5 \<mapsto> 1], errno = 0,
          trace = [Exec [''/system/bin/ip'', ''route'', ''add'', ''10.0.0.0/8'', ''via'',
                         ''0.0.0.0'', ''dev'', ''tun0'', ''table'', ''1005''] 0,
                   SendMsg CommandOkay ''Route modified'' False]\<rparr>)
   \<and> [5 \<mapsto> 1] = (mNetIdRuleCount s_clean)(5 \<mapsto> 1)
   \<and> addRoute K0 W_ip_fails ''tun0'' ''10.0.0.0'' 8 ''::'' s_clean =
     (- 1, \<lparr>mNetIdRuleCount = Map.empty, errno = ENODEV,
          trace = [Exec [''/system/bin/ip'', ''route'', ''add'', ''10.0.0.0/8'',
                         ''dev'', ''tun0'', ''table'', ''1005''] 1,
                   SendMsg OperationFailed ''ip route modification failed'' True]\<rparr>)
   \<and> Map.empty = mNetIdRuleCount s_clean"
proof -
  have ne: "ADD K0 \<noteq> DEL K0" by (simp add: K0_def)
  have r1: "(if True then addRoute K0 W_ok ''tun0'' ''10.0.0.0'' 8 ''0.0.0.0'' s_clean
             else removeRoute K0 W_ok ''tun0'' ''10.0.0.0'' 8 ''0.0.0.0'' s_clean) =
     (0, \<lparr>mNetIdRuleCount = [5 \<mapsto> 1], errno = 0,
          trace = [Exec [''/system/bin/ip'', ''route'', ''add'', ''10.0.0.0/8'', ''via'',
                         ''0.0.0.0'', ''dev'', ''tun0'', ''table'', ''1005''] 0,
                   SendMsg CommandOkay ''Route modified'' False]\<rparr>)"
    by (simp add: add_route_ok)
  have r2: "(if True then addRoute K0 W_ip_fails ''tun0'' ''10.0.0.0'' 8 ''::'' s_clean
             else removeRoute K0 W_ip_fails ''tun0'' ''10.0.0.0'' 8 ''::'' s_clean) =
     (- 1, \<lparr>mNetIdRuleCount = Map.empty, errno = ENODEV,
          trace = [Exec [''/system/bin/ip'', ''route'', ''add'', ''10.0.0.0/8'',
                         ''dev'', ''tun0'', ''table'', ''1005''] 1,
                   SendMsg OperationFailed ''ip route modification failed'' True]\<rparr>)"
    by (simp add: add_route_fails)
  from route_outcome [OF ne r1] route_outcome [OF ne r2] ne r1 r2 show ?thesis
    by (simp add: s_clean_def getNetworkId_def W_ok_def)
qed

text \<open>
  Claim C6, as amended. For \<^verbatim>\<open>addRoute\<close> and \<^verbatim>\<open>removeRoute\<close>: if the gateway argument is
  exactly the string \<^verbatim>\<open>::\<close>, the route command is the direct one, with \<^verbatim>\<open>dev\<close> and no
  \<^verbatim>\<open>via\<close> clause; for every other gateway string, the IPv4 zero address \<^verbatim>\<open>0.0.0.0\<close>
  included, the command holds \<^verbatim>\<open>via\<close> followed by the gateway.
\<close>

theorem route_gateway_form:
  fixes K W iface s add dest prefix
  defines "action \<equiv> (if add then ADD K else DEL K)"
    and "dest_str \<equiv> snprintf 44 (dest @ ''/'' @ fmt_d prefix)"
    and "table \<equiv> mark_of K (getNetworkId W iface s)"
  assumes run: "(if add then addRoute K W iface dest prefix gateway s
               else removeRoute K W iface dest prefix gateway s) = (ret, s')"
  shows "(gateway = ''::'' \<longrightarrow> (\<exists>st msg. trace s' = trace s @
            [Exec [IP_PATH K, ''route'', action, dest_str, ''dev'', iface, ''table'', table] st,
             msg]))
       \<and> (gateway \<noteq> ''::'' \<longrightarrow> (\<exists>st msg. trace s' = trace s @
            [Exec [IP_PATH K, ''route'', action, dest_str, ''via'', gateway,
                   ''dev'', iface, ''table'', table] st,
             msg]))"
proof -
  from run have "modifyRoute K W action iface dest prefix gateway (getNetworkId W iface s) s
      = (ret, s')"
    by (simp add: addRoute_def removeRoute_def action_def split: if_splits)
  then show ?thesis
    unfolding dest_str_def table_def
    by (auto simp add: modifyRoute_eq Let_def split: if_splits)
qed

text \<open>Claim C6, as amended, on the removal of a direct route.\<close>

theorem route_gateway_form_witness:
  "removeRoute K0 W_ok ''tun0'' ''10.0.0.0'' 8 ''::'' s_busy =
     (0, \<lparr>mNetIdRuleCount = Map.empty, errno = 0,
          trace = [Exec [''/system/bin/ip'', ''route'', ''del'', ''10.0.0.0/8'',
                         ''dev'', ''tun0'', ''table'', ''1005''] 0,
                   SendMsg CommandOkay ''Route modified'' False]\<rparr>)
   \<and> (\<exists>st msg. [Exec [''/system/bin/ip'', ''route'', ''del'', ''10.0.0.0/8'',
                         ''dev'', ''tun0'', ''table'', ''1005''] 0,
                   SendMsg CommandOkay ''Route modified'' False]
        = [Exec [IP_PATH K0, ''route'', DEL K0, ''10.0.0.0/8'', ''dev'', ''tun0'', ''table'',
                 ''1005''] st, msg])"
proof -
  have r: "(if False then addRoute K0 W_ok ''tun0'' ''10.0.0.0'' 8 ''::'' s_busy
             else removeRoute K0 W_ok ''tun0'' ''10.0.0.0'' 8 ''::'' s_busy) =
     (0, \<lparr>mNetIdRuleCount = Map.empty, errno = 0,
          trace = [Exec [''/system/bin/ip'', ''route'', ''del'', ''10.0.0.0/8'',
                         ''dev'', ''tun0'', ''table'', ''1005''] 0,
                   SendMsg CommandOkay ''Route modified'' False]\<rparr>)"
    by (simp add: remove_route_ok)
  from route_gateway_form [OF r] r show ?thesis
    by (simp add: s_busy_def getNetworkId_def W_ok_def mark_example fmt_d_8 snprintf_def)
qed

text \<open>
  Claim C6 as first stated fails for the IPv4 zero address: with the gateway \<^verbatim>\<open>0.0.0.0\<close>
  the command has a \<^verbatim>\<open>via 0.0.0.0\<close> clause.
\<close>

theorem route_zero_gateway_counterexample:
  "trace (snd (addRoute K0 W_ok ''tun0'' ''10.0.0.0'' 8 ''0.0.0.0'' s_clean)) =
     [Exec [''/system/bin/ip'', ''route'', ''add'', ''10.0.0.0/8'', ''via'', ''0.0.0.0'',
            ''dev'', ''tun0'', ''table'', ''1005''] 0,
      SendMsg CommandOkay ''Route modified'' False]"
  by (simp add: add_route_ok)


section \<open>UID routing manager: properties\<close>

text \<open>
  Claim C8. A call of \<^verbatim>\<open>addUidRule\<close> or \<^verbatim>\<open>removeUidRule\<close> first asks the network
  controller to bind the UID range (to the network id of the interface, or to 0 on
  removal). If the request is refused, the call sets \<^verbatim>\<open>errno\<close> to \<^verbatim>\<open>EINVAL\<close> and returns
  -1, and the request is all it did: no iptables command is issued. If the request is
  granted, the owner-match rule is issued after it, and its status is the result.
\<close>

theorem uid_rule_registry_first:
  fixes K W iface s add uid_start uid_end
  defines "netId \<equiv> (if add then getNetworkId W iface s else 0)"
    and "rule_args \<equiv> [''-t'', ''mangle'', (if add then ''-A'' else ''-D''), LOCAL_MANGLE_OUTPUT,
            ''-m'', ''owner'', ''--uid-owner'', snprintf 24 (fmt_d uid_start @ ''-'' @ fmt_d uid_end),
            ''-g'', chain_of iface]"
  assumes run: "(if add then addUidRule K W iface uid_start uid_end s
               else removeUidRule K W iface uid_start uid_end s) = (ret, s')"
  shows "(\<not> uid_range_ok W (trace s) uid_start uid_end netId False \<longrightarrow>
            ret = - 1 \<and> errno s' = EINVAL
          \<and> trace s' = trace s @ [UidRange uid_start uid_end netId False False]
          \<and> mNetIdRuleCount s' = mNetIdRuleCount s)
       \<and> (uid_range_ok W (trace s) uid_start uid_end netId False \<longrightarrow>
            trace s' = trace s @ [UidRange uid_start uid_end netId False True,
                                  Iptables V4V6 rule_args ret]
          \<and> errno s' = errno s \<and> mNetIdRuleCount s' = mNetIdRuleCount s)"
proof -
  from run have "setUidRule K W iface uid_start uid_end add s = (ret, s')"
    by (simp add: addUidRule_def removeUidRule_def split: if_splits)
  then show ?thesis
    unfolding netId_def rule_args_def
    by (auto simp add: setUidRule_def setNetworkForUidRange_def execIptables_def Let_def
        chain_of_def split: if_splits)
qed

text \<open>Runs on the example network, for the UID range 10000 to 10999.\<close>

lemma fmt_d_uids: "fmt_d 10000 = ''10000''" "fmt_d 10999 = ''10999''"
  by (simp_all add: fmt_d_def dec.simps digit_char_def)

lemma add_uid_refused:
  "addUidRule K0 W_uid_refused ''tun0'' 10000 10999 s_clean =
     (- 1, \<lparr>mNetIdRuleCount = Map.empty, errno = EINVAL,
            trace = [UidRange 10000 10999 5 False False]\<rparr>)"
  by (simp add: addUidRule_def setUidRule_def setNetworkForUidRange_def Let_def
      getNetworkId_def W_uid_refused_def W_ok_def s_clean_def)

lemma add_uid_ok:
  "addUidRule K0 W_ok ''tun0'' 10000 10999 s_clean =
     (0, \<lparr>mNetIdRuleCount = Map.empty, errno = 0,
          trace = [UidRange 10000 10999 5 False True,
                   Iptables V4V6 [''-t'', ''mangle'', ''-A'', ''st_mangle_OUTPUT'', ''-m'', ''owner'',
                     ''--uid-owner'', ''10000-10999'', ''-g'', ''st_mangle_tun0_OUTPUT''] 0]\<rparr>)"
  by (simp add: addUidRule_def setUidRule_def setNetworkForUidRange_def execIptables_def Let_def
      getNetworkId_def W_ok_def s_clean_def fmt_d_uids snprintf_def IFNAMSIZ_def
      LOCAL_MANGLE_IFACE_FORMAT_def LOCAL_MANGLE_OUTPUT_def)

text \<open>Claim C8 on a refused and on a granted request.\<close>

theorem uid_rule_registry_first_witness:
  "\<not> uid_range_ok W_uid_refused (trace s_clean) 10000 10999 5 False
   \<and> addUidRule K0 W_uid_refused ''tun0'' 10000 10999 s_clean =
     (- 1, \<lparr>mNetIdRuleCount = Map.empty, errno = EINVAL,
            trace = [UidRange 10000 10999 5 False False]\<rparr>)
   \<and> uid_range_ok W_ok (trace s_clean) 10000 10999 5 False
   \<and> addUidRule K0 W_ok ''tun0'' 10000 10999 s_clean =
     (0, \<lparr>mNetIdRuleCount = Map.empty, errno = 0,
          trace = [UidRange 10000 10999 5 False True,
                   Iptables V4V6 [''-t'', ''mangle'', ''-A'', ''st_mangle_OUTPUT'', ''-m'', ''owner'',
                     ''--uid-owner'', ''10000-10999'', ''-g'', ''st_mangle_tun0_OUTPUT''] 0]\<rparr>)"
proof -
  have r1: "(if True then addUidRule K0 W_uid_refused ''tun0'' 10000 10999 s_clean
             else removeUidRule K0 W_uid_refused ''tun0'' 10000 10999 s_clean) =
     (- 1, \<lparr>mNetIdRuleCount = Map.empty, errno = EINVAL,
            trace = [UidRange 10000 10999 5 False False]\<rparr>)"
    by (simp add: add_uid_refused)
  have r2: "(if True then addUidRule K0 W_ok ''tun0'' 10000 10999 s_clean
             else removeUidRule K0 W_ok ''tun0'' 10000 10999 s_clean) =
     (0, \<lparr>mNetIdRuleCount = Map.empty, errno = 0,
          trace = [UidRange 10000 10999 5 False True,
                   Iptables V4V6 [''-t'', ''mangle'', ''-A'', ''st_mangle_OUTPUT'', ''-m'', ''owner'',
                     ''--uid-owner'', ''10000-10999'', ''-g'', ''st_mangle_tun0_OUTPUT''] 0]\<rparr>)"
    by (simp add: add_uid_ok)
  have h1: "\<not> uid_range_ok W_uid_refused (trace s_clean) 10000 10999 5 False"
    by (simp add: W_uid_refused_def)
  have h2: "uid_range_ok W_ok (trace s_clean) 10000 10999 5 False"
    by (simp add: W_ok_def)
  from uid_rule_registry_first [OF r1] uid_rule_registry_first [OF r2] h1 h2 r1 r2
  show ?thesis
    by (simp add: getNetworkId_def W_uid_refused_def W_ok_def)
qed

end
